theory Spec2Isabelle
  imports Complex_Main
begin

chapter \<open>The employee-cards program as HOL functions\<close>

section \<open>Strings and the string built-ins the program calls\<close>

text \<open>
  A JavaScript string is a sequence of UTF-16 code units.  This development represents
  the strings whose code units are below 256 (ASCII and Latin-1) by HOL strings, one
  \<^typ>\<open>char\<close> per code unit.  On that range \<open>toLowerCase\<close>, \<open>trim\<close>, the
  regular-expression class \<open>\s\<close> and \<open>encodeURIComponent\<close> are finite tables, written
  out below; strings with code units from 256 on are outside the embedding.
\<close>

definition code_unit :: "char \<Rightarrow> nat" where
  "code_unit c = of_char c"

text \<open>
  White space and line terminators of ECMAScript below 256: TAB, LF, VT, FF, CR, SP and
  NBSP.  \<open>String.prototype.trim\<close> strips them and \<open>\s\<close> matches them.
\<close>

definition is_space :: "char \<Rightarrow> bool" where
  "is_space c = (code_unit c \<in> {9, 10, 11, 12, 13, 32, 160})"

definition is_line_terminator :: "char \<Rightarrow> bool" where
  "is_line_terminator c = (code_unit c \<in> {10, 13})"

definition is_upper :: "char \<Rightarrow> bool" where
  "is_upper c = (65 \<le> code_unit c \<and> code_unit c \<le> 90)"

definition is_ascii :: "char \<Rightarrow> bool" where
  "is_ascii c = (code_unit c < 128)"

text \<open>
  \<open>toLowerCase\<close> on one code unit: A-Z and the Latin-1 capitals 0xC0-0xDE (but the
  multiplication sign 0xD7) move up by 32; every other code unit below 256 is its own
  lower case.
\<close>

definition lower_char :: "char \<Rightarrow> char" where
  "lower_char c =
     (let n = code_unit c
      in if (65 \<le> n \<and> n \<le> 90) \<or> (192 \<le> n \<and> n \<le> 222 \<and> n \<noteq> 215)
         then char_of (n + 32) else c)"

definition toLowerCase :: "string \<Rightarrow> string" where
  "toLowerCase s = map lower_char s"

definition trim :: "string \<Rightarrow> string" where
  "trim s = rev (dropWhile is_space (rev (dropWhile is_space s)))"

text \<open>
  \<open>s.replace(/\s+/g, '-')\<close>: scanning from the left, every maximal run of white space
  becomes one hyphen.
\<close>

function replace_space_runs :: "string \<Rightarrow> string" where
  "replace_space_runs [] = []"
| "replace_space_runs (c # cs) =
     (if is_space c then CHR ''-'' # replace_space_runs (dropWhile is_space cs)
      else c # replace_space_runs cs)"
  by pat_completeness auto
termination
  by (relation "measure length") (auto simp: le_imp_less_Suc length_dropWhile_le)

text \<open>\<open>s.startsWith(p)\<close>.\<close>

definition startsWith :: "string \<Rightarrow> string \<Rightarrow> bool" where
  "startsWith s p = (take (length p) s = p)"

text \<open>
  \<open>s.split(sep)\<close> for a separator of one character: the pieces between the
  separators, the empty string giving one empty piece.
\<close>

fun split_on :: "char \<Rightarrow> string \<Rightarrow> string list" where
  "split_on sep [] = [[]]"
| "split_on sep (c # cs) =
     (if c = sep then [] # split_on sep cs
      else (case split_on sep cs of
              [] \<Rightarrow> [[c]]
            | p # ps \<Rightarrow> (c # p) # ps))"

text \<open>\<open>parts.join(sep)\<close> on an array of strings.\<close>

fun join :: "string \<Rightarrow> string list \<Rightarrow> string" where
  "join sep [] = []"
| "join sep [x] = x"
| "join sep (x # y # ys) = x @ sep @ join sep (y # ys)"

text \<open>The decimal digits of a number, as \<open>'' + n\<close> writes a non-negative integer.\<close>

definition digit_char :: "nat \<Rightarrow> char" where
  "digit_char d = char_of (48 + d)"

function show_nat :: "nat \<Rightarrow> string" where
  "show_nat n = (if n < 10 then [digit_char n] else show_nat (n div 10) @ [digit_char (n mod 10)])"
  by pat_completeness auto
termination
  by (relation "measure id") auto

declare show_nat.simps [simp del]

text \<open>
  \<open>encodeURIComponent\<close>: the unreserved characters \<open>A-Z a-z 0-9 - _ . ! ~ * ' ( )\<close>
  stay; every other code unit is written as the bytes of its UTF-8 encoding, each as
  \<open>%XX\<close> with upper-case hexadecimal digits.  A code unit from 128 to 255 has two
  bytes.  (Below 256 there is no surrogate, so the function never throws here.)
\<close>

definition is_unreserved :: "char \<Rightarrow> bool" where
  "is_unreserved c =
     (let n = code_unit c
      in (65 \<le> n \<and> n \<le> 90) \<or> (97 \<le> n \<and> n \<le> 122) \<or> (48 \<le> n \<and> n \<le> 57) \<or>
         n \<in> {45, 95, 46, 33, 126, 42, 39, 40, 41})"

definition hex_digit :: "nat \<Rightarrow> char" where
  "hex_digit d = (if d < 10 then char_of (48 + d) else char_of (55 + d))"

definition percent_byte :: "nat \<Rightarrow> string" where
  "percent_byte b = [CHR ''%'', hex_digit (b div 16), hex_digit (b mod 16)]"

definition encode_char :: "char \<Rightarrow> string" where
  "encode_char c =
     (let n = code_unit c
      in if is_unreserved c then [c]
         else if n < 128 then percent_byte n
         else percent_byte (192 + n div 64) @ percent_byte (128 + n mod 64))"

definition encodeURIComponent :: "string \<Rightarrow> string" where
  "encodeURIComponent s = concat (map encode_char s)"

section \<open>Configuration\<close>

definition BASE_URL :: string where
  "BASE_URL = ''/employee-cards''"

definition FULL_BASE_URL :: string where
  "FULL_BASE_URL = ''https://centerlink-technologies.github.io/employee-cards''"

definition CRLF :: string where
  "CRLF = [char_of (13::nat), char_of (10::nat)]"

section \<open>The employee record\<close>

text \<open>
  The object \<open>handleFormSubmit\<close> builds and \<open>data.json\<close> stores.  \<open>phone\<close> and
  \<open>linkedin\<close> are a string or \<open>null\<close>.
\<close>

record employee =
  slug :: string
  firstName :: string
  lastName :: string
  title :: string
  department :: string
  email :: string
  phone :: "string option"
  linkedin :: "string option"
  headshot :: string
  bioHtml :: string
  media :: "string list"

section \<open>Slug, profile address and contact card\<close>

text \<open>
  \<^verbatim>\<open>
  function generateSlug(firstName, lastName) {
    return (firstName + '-' + lastName)
      .toLowerCase()
      .trim()
      .replace(/\s+/g, '-');
  }
  \<close>
\<close>

definition generateSlug :: "string \<Rightarrow> string \<Rightarrow> string" where
  "generateSlug first_name last_name =
     replace_space_runs (trim (toLowerCase (first_name @ ''-'' @ last_name)))"

text \<open>
  The specification's sentence for slug derivation, read word by word: each name is
  lowercased and trimmed, its inner whitespace runs become single hyphens, and the two
  are joined with a hyphen.  \<open>generateSlug\<close> is compared with it below.
\<close>

definition deriveSlug_spec :: "string \<Rightarrow> string \<Rightarrow> string" where
  "deriveSlug_spec first_name last_name =
     replace_space_runs (trim (toLowerCase first_name)) @ ''-'' @
     replace_space_runs (trim (toLowerCase last_name))"

definition buildProfileUrl :: "string \<Rightarrow> string" where
  "buildProfileUrl sl = FULL_BASE_URL @ ''/profile.html?person='' @ encodeURIComponent sl"

text \<open>
  \<^verbatim>\<open>
  function buildVcard(employee) {
    const lines = [
      'BEGIN:VCARD',
      'VERSION:3.0',
      'FN:' + employee.firstName + ' ' + employee.lastName,
      'N:' + employee.lastName + ';' + employee.firstName + ';;;',
      'TITLE:' + employee.title,
      'ORG:Centerlink Technologies',
      'EMAIL:' + employee.email
    ];
    if (employee.phone) {
      lines.push('TEL:' + employee.phone);
    }
    const profileUrl = buildProfileUrl(employee.slug);
    lines.push('URL:' + profileUrl);
    lines.push('END:VCARD');
    return lines.join('\r\n');
  }
  \<close>
  \<open>vcard_lines\<close> is the array \<open>lines\<close> when it is joined.  \<open>employee.phone\<close>
  is truthy when it is neither \<open>null\<close> nor the empty string.
\<close>

definition vcard_lines :: "employee \<Rightarrow> string list" where
  "vcard_lines e =
     (let lines0 =
            [''BEGIN:VCARD'',
             ''VERSION:3.0'',
             ''FN:'' @ firstName e @ '' '' @ lastName e,
             ''N:'' @ lastName e @ '';'' @ firstName e @ '';;;'',
             ''TITLE:'' @ title e,
             ''ORG:Centerlink Technologies'',
             ''EMAIL:'' @ email e];
          lines1 =
            (case phone e of
               None \<Rightarrow> lines0
             | Some p \<Rightarrow> if p = [] then lines0 else lines0 @ [''TEL:'' @ p]);
          profileUrl = buildProfileUrl (slug e);
          lines2 = lines1 @ [''URL:'' @ profileUrl];
          lines3 = lines2 @ [''END:VCARD'']
      in lines3)"

definition buildVcard :: "employee \<Rightarrow> string" where
  "buildVcard e = join CRLF (vcard_lines e)"


definition no_line_break :: "string \<Rightarrow> bool" where
  "no_line_break s = list_all (\<lambda>c. \<not> is_line_terminator c) s"

section \<open>Fetched values\<close>

text \<open>
  What \<open>response.json()\<close> resolves with is any JSON value.  A number is kept by its
  value (both zeros are \<open>0\<close>); an object by its members in order.
\<close>

datatype json =
    JNull
  | JBool bool
  | JNum rat
  | JStr string
  | JArr "json list"
  | JObj "(string \<times> json) list"

text \<open>The truthiness test of \<open>if (v)\<close> and of \<open>filter(function(c) { return c; })\<close>.\<close>

fun truthy :: "json \<Rightarrow> bool" where
  "truthy JNull = False"
| "truthy (JBool b) = b"
| "truthy (JNum r) = (r \<noteq> 0)"
| "truthy (JStr s) = (s \<noteq> [])"
| "truthy (JArr xs) = True"
| "truthy (JObj ms) = True"

datatype js_error =
    Error string
  | TypeError
  | SyntaxError
  | InvalidCharacterError

text \<open>
  How one \<open>fetch\<close> ends: the network fails, or a response arrives with a status and a
  body.  The body is kept as what parsing it as JSON gives, \<open>None\<close> when it is not
  JSON (\<open>response.json()\<close> then rejects with a SyntaxError).  \<open>response.ok\<close> is a
  status from 200 to 299.
\<close>

datatype fetch_outcome =
    NetworkFailure
  | Response nat "json option"

definition response_ok :: "nat \<Rightarrow> bool" where
  "response_ok status = (200 \<le> status \<and> status \<le> 299)"

text \<open>
  \<^verbatim>\<open>
  function fetchJson(url) {
    return fetch(url)
      .then(function(response) {
        if (!response.ok) {
          throw new Error('Failed to fetch ' + url + ': ' + response.status);
        }
        return response.json();
      });
  }
  \<close>
  The promise is modelled by how it settles: \<open>Inr\<close> the value it resolves with,
  \<open>Inl\<close> the error it rejects with.
\<close>

definition fetchJson :: "string \<Rightarrow> fetch_outcome \<Rightarrow> js_error + json" where
  "fetchJson url outcome =
     (case outcome of
        NetworkFailure \<Rightarrow> Inl TypeError
      | Response status body \<Rightarrow>
          if \<not> response_ok status
          then Inl (Error (''Failed to fetch '' @ url @ '': '' @ show_nat status))
          else (case body of None \<Rightarrow> Inl SyntaxError | Some v \<Rightarrow> Inr v))"

definition dataUrl_of :: "string \<Rightarrow> string" where
  "dataUrl_of sl = BASE_URL @ ''/'' @ sl @ ''/data.json''"

section \<open>Directory and management views\<close>

text \<open>
  \<open>const cards = []\<close> is a JavaScript array written by index: it has a length and
  holds a value at some of the indices below it (the others are holes).
  \<open>cards[i] = v\<close> stores at \<open>i\<close> and raises the length to \<open>i + 1\<close> when it was
  smaller.  \<open>cards.filter(function(c) { return c; })\<close> visits the indices below the
  length in order, skips the holes and keeps the truthy values.
\<close>

record js_array =
  alength :: nat
  aelems :: "nat \<Rightarrow> json option"

definition empty_array :: js_array where
  "empty_array = \<lparr>alength = 0, aelems = (\<lambda>k. None)\<rparr>"

definition array_set :: "js_array \<Rightarrow> nat \<Rightarrow> json \<Rightarrow> js_array" where
  "array_set a i v = \<lparr>alength = max (alength a) (Suc i), aelems = (aelems a)(i := Some v)\<rparr>"

definition filter_truthy :: "js_array \<Rightarrow> json list" where
  "filter_truthy a =
     concat (map (\<lambda>k. case aelems a k of
                         None \<Rightarrow> []
                       | Some v \<Rightarrow> if truthy v then [v] else [])
                 [0..<alength a])"

text \<open>
  What a list page shows: the loading message, the empty message, or the grid (the
  list) of entries.
\<close>

datatype list_view = Loading | EmptyMessage | Entries "json list"

text \<open>
  The state the callbacks of \<open>loadDirectory\<close> share: the two counters, the array, the
  slugs logged by \<open>console.error\<close>, every argument \<open>renderDirectoryCards\<close> was called
  with, and the page.
\<close>

record directory_state =
  loaded :: nat
  failed :: nat
  cards :: js_array
  logged :: "string list"
  render_calls :: "json list list"
  view :: list_view

text \<open>
  \<open>renderDirectoryCards(employees)\<close> shows the empty message for an empty list and
  one card per entry otherwise.
\<close>

definition renderDirectoryCards :: "json list \<Rightarrow> directory_state \<Rightarrow> directory_state" where
  "renderDirectoryCards employees st =
     st\<lparr>render_calls := render_calls st @ [employees],
        view := (if employees = [] then EmptyMessage else Entries employees)\<rparr>"

text \<open>
  One lookup of \<open>loadDirectory\<close> settles: \<open>n_slugs\<close> is \<open>EMPLOYEE_SLUGS.length\<close>,
  \<open>sl\<close> and \<open>index\<close> are the arguments of the \<open>forEach\<close> callback that issued the
  lookup.
  \<^verbatim>\<open>
      .then(function(employeeData) {
        cards[index] = employeeData;
        loaded++;
        if (loaded + failed === EMPLOYEE_SLUGS.length) {
          renderDirectoryCards(cards.filter(function(c) { return c; }));
        }
      })
      .catch(function(error) {
        console.error('Failed to load ' + slug, error);
        failed++;
        if (loaded + failed === EMPLOYEE_SLUGS.length) {
          renderDirectoryCards(cards.filter(function(c) { return c; }));
        }
      });
  \<close>
\<close>

definition directory_settle ::
  "nat \<Rightarrow> string \<Rightarrow> nat \<Rightarrow> fetch_outcome \<Rightarrow> directory_state \<Rightarrow> directory_state" where
  "directory_settle n_slugs sl index outcome st =
     (case fetchJson (dataUrl_of sl) outcome of
        Inr employeeData \<Rightarrow>
          (let st1 = st\<lparr>cards := array_set (cards st) index employeeData,
                         loaded := loaded st + 1\<rparr>
           in if loaded st1 + failed st1 = n_slugs
              then renderDirectoryCards (filter_truthy (cards st1)) st1 else st1)
      | Inl err \<Rightarrow>
          (let st1 = st\<lparr>logged := logged st @ [''Failed to load '' @ sl],
                         failed := failed st + 1\<rparr>
           in if loaded st1 + failed st1 = n_slugs
              then renderDirectoryCards (filter_truthy (cards st1)) st1 else st1))"

text \<open>
  \<open>loadDirectory\<close>: with no slugs the empty message is shown at once.  Otherwise the
  \<open>forEach\<close> issues one lookup per slug and returns; the lookups then settle one at a
  time, in the order the network decides.  \<open>outcomes\<close> gives, by index, how each
  lookup ends; \<open>schedule\<close> lists the indices in the order of settling.  A schedule of a
  real run names every index below the number of slugs once (\<open>is_schedule\<close> below);
  the properties are stated for such schedules, on which every \<open>slugs ! i\<close> and
  \<open>outcomes ! i\<close> is in range.
\<close>

definition directory_start :: directory_state where
  "directory_start =
     \<lparr>loaded = 0, failed = 0, cards = empty_array, logged = [], render_calls = [],
      view = Loading\<rparr>"

definition loadDirectory ::
  "string list \<Rightarrow> fetch_outcome list \<Rightarrow> nat list \<Rightarrow> directory_state" where
  "loadDirectory slugs outcomes schedule =
     (if slugs = [] then directory_start\<lparr>view := EmptyMessage\<rparr>
      else foldl (\<lambda>st i. directory_settle (length slugs) (slugs ! i) i (outcomes ! i) st)
             directory_start schedule)"

text \<open>
  \<open>loadManageList\<close> is the same loop with one counter for both ways of settling.
  \<^verbatim>\<open>
      .then(function(employeeData) {
        employees[index] = employeeData;
        loaded++;
        if (loaded === EMPLOYEE_SLUGS.length) {
          renderManageList(employees.filter(function(e) { return e; }));
        }
      })
      .catch(function(error) {
        console.error('Failed to load ' + slug, error);
        loaded++;
        if (loaded === EMPLOYEE_SLUGS.length) {
          renderManageList(employees.filter(function(e) { return e; }));
        }
      });
  \<close>
\<close>

record manage_state =
  m_loaded :: nat
  m_employees :: js_array
  m_logged :: "string list"
  m_render_calls :: "json list list"
  m_view :: list_view

definition renderManageList :: "json list \<Rightarrow> manage_state \<Rightarrow> manage_state" where
  "renderManageList employees st =
     st\<lparr>m_render_calls := m_render_calls st @ [employees],
        m_view := (if employees = [] then EmptyMessage else Entries employees)\<rparr>"

definition manage_settle ::
  "nat \<Rightarrow> string \<Rightarrow> nat \<Rightarrow> fetch_outcome \<Rightarrow> manage_state \<Rightarrow> manage_state" where
  "manage_settle n_slugs sl index outcome st =
     (case fetchJson (dataUrl_of sl) outcome of
        Inr employeeData \<Rightarrow>
          (let st1 = st\<lparr>m_employees := array_set (m_employees st) index employeeData,
                         m_loaded := m_loaded st + 1\<rparr>
           in if m_loaded st1 = n_slugs
              then renderManageList (filter_truthy (m_employees st1)) st1 else st1)
      | Inl err \<Rightarrow>
          (let st1 = st\<lparr>m_logged := m_logged st @ [''Failed to load '' @ sl],
                         m_loaded := m_loaded st + 1\<rparr>
           in if m_loaded st1 = n_slugs
              then renderManageList (filter_truthy (m_employees st1)) st1 else st1))"

definition manage_start :: manage_state where
  "manage_start =
     \<lparr>m_loaded = 0, m_employees = empty_array, m_logged = [], m_render_calls = [],
      m_view = Loading\<rparr>"

definition loadManageList ::
  "string list \<Rightarrow> fetch_outcome list \<Rightarrow> nat list \<Rightarrow> manage_state" where
  "loadManageList slugs outcomes schedule =
     (if slugs = [] then manage_start\<lparr>m_view := EmptyMessage\<rparr>
      else foldl (\<lambda>st i. manage_settle (length slugs) (slugs ! i) i (outcomes ! i) st)
             manage_start schedule)"

text \<open>
  The records a pass resolved, in the order of the slug list: what the specification
  calls the resolver's output.
\<close>

definition resolved_in_order :: "string list \<Rightarrow> fetch_outcome list \<Rightarrow> json list" where
  "resolved_in_order slugs outcomes =
     concat (map (\<lambda>(sl, outcome). case fetchJson (dataUrl_of sl) outcome of
                                    Inl err \<Rightarrow> []
                                  | Inr v \<Rightarrow> [v])
                 (zip slugs outcomes))"

definition is_schedule :: "nat \<Rightarrow> nat list \<Rightarrow> bool" where
  "is_schedule n schedule = (distinct schedule \<and> set schedule = set [0..<n])"

section \<open>Profile page\<close>

text \<open>
  \<open>new URLSearchParams(window.location.search)\<close> is taken as the list of decoded
  name-value pairs it holds, in order; \<open>params.get(param)\<close> is the first value under
  the name, or \<open>null\<close>.
\<close>

definition getQueryParam :: "(string \<times> string) list \<Rightarrow> string \<Rightarrow> string option" where
  "getQueryParam search param = map_of search param"

text \<open>
  What the profile page does, in order: the requests it sends, the call of
  \<open>renderProfile\<close>, and the message \<open>showProfileError\<close> puts on the page.
\<close>

datatype page_effect =
    Fetch string
  | RenderProfile json
  | ShowProfileError string

definition fetched_urls :: "page_effect list \<Rightarrow> string list" where
  "fetched_urls effects =
     concat (map (\<lambda>e. case e of Fetch url \<Rightarrow> [url] | RenderProfile v \<Rightarrow> [] | ShowProfileError m \<Rightarrow> [])
                 effects)"

text \<open>
  \<^verbatim>\<open>
  function loadProfile(slug) {
    ...
    const dataUrl = BASE_URL + '/' + slug + '/data.json';
    fetchJson(dataUrl)
      .then(function(employeeData) {
        renderProfile(employeeData);
      })
      .catch(function(error) {
        showProfileError('Employee not found: ' + slug);
      });
  }
  \<close>
  \<open>outcome\<close> is how the one request ends.  The \<open>catch\<close> is chained after the
  \<open>then\<close>, so it also receives an exception of \<open>renderProfile\<close>;
  \<open>render_returns v\<close> says whether \<open>renderProfile(v)\<close> returns normally.
\<close>

definition loadProfile :: "(json \<Rightarrow> bool) \<Rightarrow> string \<Rightarrow> fetch_outcome \<Rightarrow> page_effect list" where
  "loadProfile render_returns sl outcome =
     (let dataUrl = BASE_URL @ ''/'' @ sl @ ''/data.json''
      in Fetch dataUrl #
         (case fetchJson dataUrl outcome of
            Inr employeeData \<Rightarrow>
              RenderProfile employeeData #
              (if render_returns employeeData then []
               else [ShowProfileError (''Employee not found: '' @ sl)])
          | Inl err \<Rightarrow> [ShowProfileError (''Employee not found: '' @ sl)]))"

text \<open>
  \<^verbatim>\<open>
  function initProfilePage() {
    const person = getQueryParam('person');
    if (!person) {
      showProfileError('No employee specified. Use ?person={slug}');
      return;
    }
    loadProfile(person);
  }
  \<close>
  \<open>network url\<close> is how a request for \<open>url\<close> would end.  \<open>!person\<close> holds for
  \<open>null\<close> and for the empty string.
\<close>

definition initProfilePage ::
  "(json \<Rightarrow> bool) \<Rightarrow> (string \<times> string) list \<Rightarrow> (string \<Rightarrow> fetch_outcome) \<Rightarrow> page_effect list" where
  "initProfilePage render_returns search network =
     (case getQueryParam search ''person'' of
        None \<Rightarrow> [ShowProfileError ''No employee specified. Use ?person={slug}'']
      | Some person \<Rightarrow>
          if person = [] then [ShowProfileError ''No employee specified. Use ?person={slug}'']
          else loadProfile render_returns person (network (BASE_URL @ ''/'' @ person @ ''/data.json'')))"

section \<open>Images of the bio markup\<close>

text \<open>
  The browser parses the markup; the program reads the \<open>img\<close> elements of the parsed
  tree.  An element is kept by what the program reads of it: the \<open>src\<close> attribute
  (\<open>getAttribute('src')\<close>, \<open>null\<close> when absent), the \<open>src\<close> property (the attribute
  resolved to a URL) and the \<open>title\<close> property (empty when absent).  The parser is a
  parameter \<open>parse\<close> of the functions below: \<open>parse markup\<close> is
  \<open>querySelectorAll('img')\<close> on an element whose \<open>innerHTML\<close> is \<open>markup\<close>, in
  document order.
\<close>

record img =
  img_src_attr :: "string option"
  img_src :: string
  img_title :: string

text \<open>
  The bio part of \<open>renderProfile\<close>:
  \<^verbatim>\<open>
    bio.innerHTML = employee.bioHtml;
    // Rewrite media src to use absolute paths
    const imgs = bio.querySelectorAll('img');
    imgs.forEach(function(img) {
      const src = img.getAttribute('src');
      if (src && !src.startsWith('http')) {
        img.src = BASE_URL + '/' + employee.slug + '/' + src;
      }
    });
  \<close>
  \<open>rewrite_img_src\<close> is the callback on the attribute; \<open>renderProfile_bio\<close> gives the
  \<open>src\<close> attributes of the images of the page after the loop.
\<close>

definition rewrite_img_src :: "string \<Rightarrow> string option \<Rightarrow> string option" where
  "rewrite_img_src sl src_attr =
     (case src_attr of
        None \<Rightarrow> None
      | Some src \<Rightarrow>
          if src \<noteq> [] \<and> \<not> startsWith src ''http''
          then Some (BASE_URL @ ''/'' @ sl @ ''/'' @ src)
          else Some src)"

definition renderProfile_bio :: "(string \<Rightarrow> img list) \<Rightarrow> employee \<Rightarrow> string option list" where
  "renderProfile_bio parse e =
     map (\<lambda>i. rewrite_img_src (slug e) (img_src_attr i)) (parse (bioHtml e))"

text \<open>
  The media gallery of \<open>renderProfile\<close>, the next block of the function:
  \<^verbatim>\<open>
    if (employee.media && employee.media.length > 0) {
      ...
        employee.media.forEach(function(filename) {
          const img = document.createElement('img');
          img.src = BASE_URL + '/' + employee.slug + '/' + filename;
          img.alt = filename;
          profileMedia.appendChild(img);
        });
      ...
    }
  \<close>
  \<open>renderProfile_media\<close> gives the \<open>src\<close> attributes of the images of the gallery,
  none for a record without media.
\<close>

definition renderProfile_media :: "employee \<Rightarrow> string list" where
  "renderProfile_media e =
     map (\<lambda>filename. BASE_URL @ ''/'' @ slug e @ ''/'' @ filename) (media e)"

section \<open>Files and the archive\<close>

text \<open>A \<open>File\<close>: its name, its type and its bytes.\<close>

record js_file =
  file_name :: string
  file_type :: string
  file_bytes :: string

text \<open>A media item \<open>{filename, file}\<close> of \<open>handleFormSubmit\<close>; the field \<open>file\<close> is \<open>media_file\<close> here.\<close>

record media_item =
  filename :: string
  media_file :: js_file

text \<open>
  \<^verbatim>\<open>
  function getFileExtension(filename) {
    const parts = filename.split('.');
    return parts.length > 1 ? '.' + parts[parts.length - 1] : '';
  }
  \<close>
\<close>

definition getFileExtension :: "string \<Rightarrow> string" where
  "getFileExtension fname =
     (let parts = split_on CHR ''.'' fname
      in if length parts > 1 then ''.'' @ last parts else [])"

text \<open>
  Modelled from the spec: the archive engine (the JSZip library, \<open>libs/jszip.min.js\<close>)
  is not among the source files.  The specification treats it as the capability to
  pack named byte streams into one file, under a folder named by the slug, where a
  later entry of the same name overwrites the earlier one.  So an archive is a list of
  folders by name, each a list of entries by name, in the order of creation;
  \<open>zip.folder(name)\<close> creates the folder when it is new, and \<open>folder.file(name, data)\<close>
  sets the entry of that name in that folder.
\<close>

datatype zip_content = TextEntry string | FileEntry js_file

type_synonym archive = "(string \<times> (string \<times> zip_content) list) list"

text \<open>Modelled from the spec: \<open>zip.folder(name)\<close>, a new folder unless one of that name exists.\<close>

definition zip_folder :: "archive \<Rightarrow> string \<Rightarrow> archive" where
  "zip_folder z name = (if name \<in> set (map fst z) then z else z @ [(name, [])])"

text \<open>
  Modelled from the spec: setting an entry of a folder; an entry of the same name is
  overwritten where it stands, a new one is added at the end.
\<close>

fun put_entry :: "(string \<times> zip_content) list \<Rightarrow> string \<Rightarrow> zip_content \<Rightarrow> (string \<times> zip_content) list" where
  "put_entry [] name content = [(name, content)]"
| "put_entry ((k, v) # rest) name content =
     (if k = name then (k, content) # rest else (k, v) # put_entry rest name content)"

text \<open>Modelled from the spec: \<open>folder.file(name, data)\<close> on the folder of that name.\<close>

definition folder_file :: "archive \<Rightarrow> string \<Rightarrow> string \<Rightarrow> zip_content \<Rightarrow> archive" where
  "folder_file z folder name content =
     map (\<lambda>(f, entries). if f = folder then (f, put_entry entries name content) else (f, entries)) z"

text \<open>
  \<^verbatim>\<open>
  function createEmployeeZip(slug, employeeData, vcard, headshotFile, mediaFiles) {
    return new Promise(function(resolve, reject) {
      const zip = new JSZip();
      const folder = zip.folder(slug);
      folder.file('data.json', JSON.stringify(employeeData, null, 2));
      folder.file('contact.vcf', vcard);
      folder.file(employeeData.headshot, headshotFile);
      let mediaProcessed = 0;
      const totalMedia = mediaFiles.length;
      if (totalMedia === 0) {
        zip.generateAsync({ type: 'blob' }).then(resolve).catch(reject);
      } else {
        mediaFiles.forEach(function(media) {
          folder.file(media.filename, media.file);
          mediaProcessed++;
          if (mediaProcessed === totalMedia) {
            zip.generateAsync({ type: 'blob' }).then(resolve).catch(reject);
          }
        });
      }
    });
  }
  \<close>
  The loop over the media files carries the archive, the counter and the archives
  \<open>generateAsync\<close> has been called on so far.
\<close>

fun add_media ::
  "string \<Rightarrow> nat \<Rightarrow> media_item list \<Rightarrow> archive \<times> nat \<times> archive list \<Rightarrow> archive \<times> nat \<times> archive list" where
  "add_media folder totalMedia [] st = st"
| "add_media folder totalMedia (m # ms) (z, mediaProcessed, generated) =
     (let z1 = folder_file z folder (filename m) (FileEntry (media_file m));
          mediaProcessed1 = mediaProcessed + 1;
          generated1 = (if mediaProcessed1 = totalMedia then generated @ [z1] else generated)
      in add_media folder totalMedia ms (z1, mediaProcessed1, generated1))"

text \<open>
  \<open>createEmployeeZip_generated\<close>: the archives handed to \<open>generateAsync\<close>, in the
  order of the calls.  \<open>stringify\<close> stands for \<open>JSON.stringify(employeeData, null, 2)\<close>.
\<close>

definition createEmployeeZip_generated ::
  "(employee \<Rightarrow> string) \<Rightarrow> string \<Rightarrow> employee \<Rightarrow> string \<Rightarrow> js_file \<Rightarrow> media_item list \<Rightarrow> archive list" where
  "createEmployeeZip_generated stringify sl employeeData vcard headshotFile mediaFiles =
     (let z0 = zip_folder [] sl;
          z1 = folder_file z0 sl ''data.json'' (TextEntry (stringify employeeData));
          z2 = folder_file z1 sl ''contact.vcf'' (TextEntry vcard);
          z3 = folder_file z2 sl (headshot employeeData) (FileEntry headshotFile);
          totalMedia = length mediaFiles
      in if totalMedia = 0 then [z3]
         else snd (snd (add_media sl totalMedia mediaFiles (z3, 0, []))))"

text \<open>
  The promise \<open>createEmployeeZip\<close> returns settles as the first call of
  \<open>generateAsync\<close> does (\<open>Inr\<close> the packaged file, \<open>Inl\<close> the message of the
  failure); with no call it would stay pending, which is \<open>None\<close>.
\<close>

definition createEmployeeZip ::
  "(employee \<Rightarrow> string) \<Rightarrow> (archive \<Rightarrow> string + string) \<Rightarrow>
   string \<Rightarrow> employee \<Rightarrow> string \<Rightarrow> js_file \<Rightarrow> media_item list \<Rightarrow> (string + string) option" where
  "createEmployeeZip stringify generateAsync sl employeeData vcard headshotFile mediaFiles =
     (case createEmployeeZip_generated stringify sl employeeData vcard headshotFile mediaFiles of
        [] \<Rightarrow> None
      | z # later \<Rightarrow> Some (generateAsync z))"

section \<open>The form: images embedded in the bio\<close>

text \<open>
  \<open>arr[0].match(/:(.*?);/)[1]\<close>: the match starts at the leftmost colon from which a
  semicolon is reached without crossing a line terminator; the group is the text
  between the two.  \<open>None\<close> is the \<open>null\<close> that \<open>match\<close> returns without a match.
\<close>

definition match_to_semicolon :: "string \<Rightarrow> string option" where
  "match_to_semicolon s =
     (let cap = takeWhile (\<lambda>c. c \<noteq> CHR '';'' \<and> \<not> is_line_terminator c) s
      in case drop (length cap) s of
           [] \<Rightarrow> None
         | c # rest \<Rightarrow> if c = CHR '';'' then Some cap else None)"

fun regex_mime :: "string \<Rightarrow> string option" where
  "regex_mime [] = None"
| "regex_mime (c # cs) =
     (if c = CHR '':''
      then (case match_to_semicolon cs of
              Some cap \<Rightarrow> Some cap
            | None \<Rightarrow> regex_mime cs)
      else regex_mime cs)"

text \<open>
  \<^verbatim>\<open>
  function dataUrlToFile(dataUrl, filename) {
    const arr = dataUrl.split(',');
    const mime = arr[0].match(/:(.*?);/)[1];
    const bstr = atob(arr[1]);
    ...
    return new File([u8arr], filename, { type: mime });
  }
  \<close>
  Indexing the \<open>null\<close> of a failed match throws a TypeError.  \<open>atob\<close> is the
  browser's base64 decoder, a parameter: \<open>None\<close> when it throws
  InvalidCharacterError.  Without a comma \<open>arr[1]\<close> is \<open>undefined\<close>, which \<open>atob\<close>
  reads as the string \<open>undefined\<close>.  The bytes of the file are the code units of
  the decoded string; \<open>file_type\<close> is the type the constructor is given (nothing in
  the program reads it back).
\<close>

definition dataUrlToFile :: "(string \<Rightarrow> string option) \<Rightarrow> string \<Rightarrow> string \<Rightarrow> js_error + js_file" where
  "dataUrlToFile atob dataUrl fname =
     (case split_on CHR '','' dataUrl of
        [] \<Rightarrow> Inl TypeError
      | arr0 # arr_rest \<Rightarrow>
          (case regex_mime arr0 of
             None \<Rightarrow> Inl TypeError
           | Some mime \<Rightarrow>
               (case atob (case arr_rest of [] \<Rightarrow> ''undefined'' | arr1 # arr_more \<Rightarrow> arr1) of
                  None \<Rightarrow> Inl InvalidCharacterError
                | Some bstr \<Rightarrow>
                    Inr \<lparr>file_name = fname, file_type = mime, file_bytes = bstr\<rparr>)))"

text \<open>
  \<^verbatim>\<open>
  function extractMediaFromBio(bioHtml) {
    const div = document.createElement('div');
    div.innerHTML = bioHtml;
    const imgs = div.querySelectorAll('img');
    const media = [];
    imgs.forEach(function(img) {
      if (img.src.startsWith('data:')) {
        media.push({
          src: img.src,
          file: dataUrlToFile(img.src, img.title || 'image.gif')
        });
      }
    });
    return media;
  }
  \<close>
  An exception of \<open>dataUrlToFile\<close> ends the loop and the function.
\<close>

record bio_image =
  src :: string
  src_file :: js_file

fun extract_loop ::
  "(string \<Rightarrow> string option) \<Rightarrow> img list \<Rightarrow> bio_image list \<Rightarrow> js_error + bio_image list" where
  "extract_loop atob [] found = Inr found"
| "extract_loop atob (i # imgs) found =
     (if startsWith (img_src i) ''data:''
      then (case dataUrlToFile atob (img_src i)
                   (if img_title i = [] then ''image.gif'' else img_title i) of
              Inl err \<Rightarrow> Inl err
            | Inr f \<Rightarrow> extract_loop atob imgs (found @ [\<lparr>src = img_src i, src_file = f\<rparr>]))
      else extract_loop atob imgs found)"

definition extractMediaFromBio ::
  "(string \<Rightarrow> string option) \<Rightarrow> (string \<Rightarrow> img list) \<Rightarrow> string \<Rightarrow> js_error + bio_image list" where
  "extractMediaFromBio atob parse markup = extract_loop atob (parse markup) []"

text \<open>
  \<open>s.replace(pattern, replacement)\<close> with two strings replaces the first occurrence
  of the pattern only, and reads \<open>$$\<close>, \<open>$&\<close>, \<open>$`\<close> and \<open>$'\<close> in the replacement
  as a dollar sign, the matched text, the text before it and the text after it.
  \<open>find_first\<close> gives the text before and after the first occurrence.
\<close>

fun find_first :: "string \<Rightarrow> string \<Rightarrow> (string \<times> string) option" where
  "find_first pat [] = (if pat = [] then Some ([], []) else None)"
| "find_first pat (c # cs) =
     (if startsWith (c # cs) pat then Some ([], drop (length pat) (c # cs))
      else (case find_first pat cs of
              None \<Rightarrow> None
            | Some (pre, post) \<Rightarrow> Some (c # pre, post)))"

fun expand_dollar :: "string \<Rightarrow> string \<Rightarrow> string \<Rightarrow> string \<Rightarrow> string" where
  "expand_dollar matched pre post [] = []"
| "expand_dollar matched pre post [c] = [c]"
| "expand_dollar matched pre post (c # d # r) =
     (if c = CHR 0x24 \<and> d = CHR 0x24 then CHR 0x24 # expand_dollar matched pre post r
      else if c = CHR 0x24 \<and> d = CHR 0x26 then matched @ expand_dollar matched pre post r
      else if c = CHR 0x24 \<and> d = CHR 0x60 then pre @ expand_dollar matched pre post r
      else if c = CHR 0x24 \<and> d = CHR 0x27 then post @ expand_dollar matched pre post r
      else c # expand_dollar matched pre post (d # r))"

definition js_replace :: "string \<Rightarrow> string \<Rightarrow> string \<Rightarrow> string" where
  "js_replace s pat replacement =
     (case find_first pat s of
        None \<Rightarrow> s
      | Some (pre, post) \<Rightarrow> pre @ expand_dollar pat pre post replacement @ post)"

text \<open>
  The loop of \<open>handleFormSubmit\<close> over the extracted images, carrying the \<open>media\<close>
  array and \<open>bioHtmlWithLocalPaths\<close>:
  \<^verbatim>\<open>
  bioImages.forEach(function(img, index) {
    if (img.src.startsWith('data:')) {
      const filename = 'bio-image-' + (index + 1) + getFileExtension(img.file.name || '.gif');
      media.push({
        filename: filename,
        file: img.file
      });
      bioHtmlWithLocalPaths = bioHtmlWithLocalPaths.replace(img.src, filename);
    }
  });
  \<close>
\<close>

fun convert_loop ::
  "bio_image list \<Rightarrow> nat \<Rightarrow> media_item list \<times> string \<Rightarrow> media_item list \<times> string" where
  "convert_loop [] index st = st"
| "convert_loop (i # rest) index (media_acc, bioHtmlWithLocalPaths) =
     (if startsWith (src i) ''data:''
      then (let fname = ''bio-image-'' @ show_nat (index + 1) @
                        getFileExtension (if file_name (src_file i) = [] then ''.gif''
                                          else file_name (src_file i))
            in convert_loop rest (index + 1)
                 (media_acc @ [\<lparr>filename = fname, media_file = src_file i\<rparr>],
                  js_replace bioHtmlWithLocalPaths (src i) fname))
      else convert_loop rest (index + 1) (media_acc, bioHtmlWithLocalPaths))"

text \<open>
  The values of the form's fields, the \<open>innerHTML\<close> of the bio editor and the files of
  the headshot input.
\<close>

record form_input =
  in_firstName :: string
  in_lastName :: string
  in_email :: string
  in_phone :: string
  in_title :: string
  in_department :: string
  in_linkedin :: string
  in_bioHtml :: string
  in_headshot_files :: "js_file list"

text \<open>
  How \<open>handleFormSubmit\<close> ends: an error shown on the page, an exception nothing
  catches, or the preview of the record, its contact card, its profile address, its
  media files and the packaged file.
\<close>

record submission =
  sub_employeeData :: employee
  sub_vcard :: string
  sub_profileUrl :: string
  sub_media :: "media_item list"
  sub_zip :: string

datatype submit_result =
    ShowError string
  | Uncaught js_error
  | Pending
  | ShowFormPreview submission

text \<open>
  \<open>handleFormSubmit\<close> (with the archive library loaded): the fields are trimmed and
  validated, the slug and the headshot's name derived, the images of the bio extracted
  and its markup rewritten, the record, the contact card and the archive built.
\<close>

definition handleFormSubmit ::
  "(string \<Rightarrow> string option) \<Rightarrow> (string \<Rightarrow> img list) \<Rightarrow> (employee \<Rightarrow> string) \<Rightarrow>
   (archive \<Rightarrow> string + string) \<Rightarrow> form_input \<Rightarrow> submit_result" where
  "handleFormSubmit atob parse stringify generateAsync inp =
     (let first_name = trim (in_firstName inp);
          last_name = trim (in_lastName inp);
          email_v = trim (in_email inp);
          phone_v = trim (in_phone inp);
          title_v = trim (in_title inp);
          department_v = trim (in_department inp);
          linkedin_v = trim (in_linkedin inp);
          bio = trim (in_bioHtml inp)
      in if first_name = [] \<or> last_name = [] \<or> email_v = [] \<or> title_v = [] \<or>
            department_v = [] \<or> bio = []
         then ShowError ''Please fill in all required fields, including a bio.''
         else (case in_headshot_files inp of
                 [] \<Rightarrow> ShowError ''Please upload a headshot image.''
               | headshotFile # others \<Rightarrow>
                   (let sl = generateSlug first_name last_name;
                        headshotExt = getFileExtension (file_name headshotFile);
                        headshotFilename = ''headshot'' @ headshotExt
                    in case extractMediaFromBio atob parse bio of
                         Inl err \<Rightarrow> Uncaught err
                       | Inr bioImages \<Rightarrow>
                           (let (media_v, bioHtmlWithLocalPaths) = convert_loop bioImages 0 ([], bio);
                                employeeData =
                                  \<lparr>slug = sl, firstName = first_name, lastName = last_name,
                                   title = title_v, department = department_v, email = email_v,
                                   phone = (if phone_v = [] then None else Some phone_v),
                                   linkedin = (if linkedin_v = [] then None else Some linkedin_v),
                                   headshot = headshotFilename,
                                   bioHtml = bioHtmlWithLocalPaths,
                                   media = map filename media_v\<rparr>;
                                vcard = buildVcard employeeData;
                                profileUrl = buildProfileUrl sl
                            in case createEmployeeZip stringify generateAsync sl employeeData vcard
                                      headshotFile media_v of
                                 None \<Rightarrow> Pending
                               | Some (Inl message) \<Rightarrow> ShowError (''Error creating ZIP: '' @ message)
                               | Some (Inr zip_blob) \<Rightarrow>
                                   ShowFormPreview
                                     \<lparr>sub_employeeData = employeeData, sub_vcard = vcard,
                                      sub_profileUrl = profileUrl, sub_media = media_v,
                                      sub_zip = zip_blob\<rparr>))))"

section \<open>Example data\<close>

text \<open>
  A record as the repository's example folder has it, the same record with a title
  that holds a line break and no phone, the same record with two local images in its
  bio (what the parser gives for the markup: the attribute, and the address the page
  resolves it to), two media files, and two form submissions: one whose bio holds two
  images inserted by the editor (base64 data URLs, the file's name as title), one whose
  bio holds a pasted image with a data URL that is not base64.
\<close>

definition john_doe :: employee where
  "john_doe =
     \<lparr>slug = ''john-doe'', firstName = ''John'', lastName = ''Doe'',
      title = ''Engineer'', department = ''IT'', email = ''john.doe@example.com'',
      phone = Some ''555-0100'', linkedin = None, headshot = ''headshot.jpg'',
      bioHtml = ''<p>Hiking</p><img src=\"hiking.gif\">'', media = [''hiking.gif'']\<rparr>"


definition http_diagram :: employee where
  "http_diagram =
     john_doe\<lparr>bioHtml := ''<p>Setup</p><img src=\"hiking.gif\"><img src=\"http-diagram.png\">'',
               media := [''hiking.gif'', ''http-diagram.png'']\<rparr>"

definition http_diagram_parse :: "string \<Rightarrow> img list" where
  "http_diagram_parse markup =
     [\<lparr>img_src_attr = Some ''hiking.gif'',
       img_src = ''https://centerlink-technologies.github.io/employee-cards/hiking.gif'',
       img_title = []\<rparr>,
      \<lparr>img_src_attr = Some ''http-diagram.png'',
       img_src = ''https://centerlink-technologies.github.io/employee-cards/http-diagram.png'',
       img_title = []\<rparr>]"

definition hiking_gif :: media_item where
  "hiking_gif =
     \<lparr>filename = ''hiking.gif'',
      media_file = \<lparr>file_name = ''hiking.gif'', file_type = ''image/gif'', file_bytes = ''GIF89a''\<rparr>\<rparr>"

definition lab_setup_jpg :: media_item where
  "lab_setup_jpg =
     \<lparr>filename = ''lab-setup.jpg'',
      media_file = \<lparr>file_name = ''lab.jpg'', file_type = ''image/jpeg'', file_bytes = ''JFIF''\<rparr>\<rparr>"

definition portrait :: js_file where
  "portrait = \<lparr>file_name = ''me.jpg'', file_type = ''image/jpeg'', file_bytes = ''JFIF''\<rparr>"

definition svg_url :: string where
  "svg_url = ''data:image/svg+xml,%3Csvg%3E%3C/svg%3E''"

definition svg_form :: form_input where
  "svg_form =
     \<lparr>in_firstName = ''John'', in_lastName = ''Doe'', in_email = ''john.doe@example.com'',
      in_phone = [], in_title = ''Engineer'', in_department = ''IT'', in_linkedin = [],
      in_bioHtml = ''<p>Logo</p><img src=\"'' @ svg_url @ ''\">'',
      in_headshot_files = [portrait]\<rparr>"

definition svg_parse :: "string \<Rightarrow> img list" where
  "svg_parse markup = [\<lparr>img_src_attr = Some svg_url, img_src = svg_url, img_title = []\<rparr>]"

definition png_url :: string where
  "png_url = ''data:image/png;base64,iVBORw0KGgo=''"

definition gif_url :: string where
  "gif_url = ''data:image/gif;base64,R0lGODlhAQABAAAAACw=''"

definition two_image_form :: form_input where
  "two_image_form =
     \<lparr>in_firstName = ''John'', in_lastName = ''Doe'', in_email = ''john.doe@example.com'',
      in_phone = [], in_title = ''Engineer'', in_department = ''IT'', in_linkedin = [],
      in_bioHtml = ''<p>Hi</p><img src=\"'' @ png_url @ ''\" title=\"lab.png\">'' @
                   ''<img src=\"https://example.com/x.png\">'' @
                   ''<img src=\"'' @ gif_url @ ''\">'',
      in_headshot_files = [portrait]\<rparr>"

definition two_image_parse :: "string \<Rightarrow> img list" where
  "two_image_parse markup =
     [\<lparr>img_src_attr = Some png_url, img_src = png_url, img_title = ''lab.png''\<rparr>,
      \<lparr>img_src_attr = Some ''https://example.com/x.png'', img_src = ''https://example.com/x.png'',
       img_title = []\<rparr>,
      \<lparr>img_src_attr = Some gif_url, img_src = gif_url, img_title = []\<rparr>]"

chapter \<open>Properties of the program\<close>

section \<open>Characters and white space\<close>

lemma code_unit_char_of: "n < 256 \<Longrightarrow> code_unit (char_of n) = n"
  by (simp add: code_unit_def)

lemma code_unit_lt: "code_unit c < 256"
proof -
  have "(of_char c :: nat) mod 256 < 256" by (rule mod_less_divisor) simp
  then show ?thesis by (simp add: code_unit_def)
qed

lemma lower_hyphen: "lower_char CHR ''-'' = CHR ''-''"
  by (simp add: lower_char_def code_unit_def)

lemma hyphen_plain: "\<not> is_space CHR ''-'' \<and> is_ascii CHR ''-'' \<and> \<not> is_upper CHR ''-''"
  by (simp add: is_space_def is_ascii_def is_upper_def code_unit_def)

text \<open>Lowercasing neither makes nor removes white space.\<close>

lemma is_space_lower_char: "is_space (lower_char c) = is_space c"
  using code_unit_lt [of c]
  by (auto simp: is_space_def lower_char_def Let_def code_unit_char_of)

lemma lower_char_ascii: "is_ascii c \<Longrightarrow> is_ascii (lower_char c) \<and> \<not> is_upper (lower_char c)"
  by (auto simp: is_ascii_def is_upper_def lower_char_def Let_def code_unit_char_of)

lemma dropWhile_space_lower:
  "dropWhile is_space (toLowerCase s) = toLowerCase (dropWhile is_space s)"
  by (simp add: toLowerCase_def dropWhile_map comp_def is_space_lower_char)

lemma trim_lower: "trim (toLowerCase s) = toLowerCase (trim s)"
  by (simp add: trim_def toLowerCase_def rev_map dropWhile_map comp_def is_space_lower_char)

lemma dropWhile_space_sep:
  "\<not> is_space c \<Longrightarrow> dropWhile is_space (a @ c # b) = dropWhile is_space a @ c # b"
  by (induction a) auto

text \<open>
  Trimming a string with a character that is no white space in it: only what stands
  before that character loses its leading white space, only what stands after it
  loses its trailing white space.
\<close>

lemma trim_sep:
  assumes "\<not> is_space c"
  shows "trim (a @ c # b) = dropWhile is_space a @ c # rev (dropWhile is_space (rev b))"
proof -
  have "rev (dropWhile is_space (a @ c # b)) = rev b @ c # rev (dropWhile is_space a)"
    using assms by (simp add: dropWhile_space_sep)
  then show ?thesis
    using assms by (simp add: trim_def dropWhile_space_sep)
qed

lemma replace_space_runs_sep:
  "\<not> is_space c \<Longrightarrow>
   replace_space_runs (a @ c # b) = replace_space_runs a @ c # replace_space_runs b"
  by (induction a rule: replace_space_runs.induct) (simp_all add: dropWhile_space_sep)

lemma set_replace_space_runs:
  "set (replace_space_runs s) \<subseteq> insert CHR ''-'' {c \<in> set s. \<not> is_space c}"
proof (induction s rule: replace_space_runs.induct)
  case 1
  then show ?case by simp
next
  case (2 c cs)
  have "set (dropWhile is_space cs) \<subseteq> set cs"
    by (auto dest: set_dropWhileD)
  with 2 show ?case by auto
qed

lemma set_trim: "set (trim s) \<subseteq> set s"
  unfolding trim_def by (auto dest!: set_dropWhileD)

lemma dropWhile_same_length: "length (dropWhile P xs) = length xs \<Longrightarrow> dropWhile P xs = xs"
  using length_dropWhile_le [of P "tl xs"] by (cases xs) (auto split: if_splits)

lemma trim_fixed:
  assumes "trim s = s"
  shows "dropWhile is_space s = s" and "rev (dropWhile is_space (rev s)) = s"
proof -
  have "length s = length (dropWhile is_space (rev (dropWhile is_space s)))"
    using assms by (metis length_rev trim_def)
  also have "\<dots> \<le> length (dropWhile is_space s)"
    by (metis length_dropWhile_le length_rev)
  finally have "length (dropWhile is_space s) = length s"
    using length_dropWhile_le [of is_space s] by simp
  then show a: "dropWhile is_space s = s" by (rule dropWhile_same_length)
  show "rev (dropWhile is_space (rev s)) = s"
    using assms unfolding trim_def a .
qed

section \<open>Slug derivation\<close>

lemma generateSlug_shape:
  "generateSlug f l =
     replace_space_runs (dropWhile is_space (toLowerCase f)) @ ''-'' @
     replace_space_runs (rev (dropWhile is_space (rev (toLowerCase l))))"
proof -
  have "toLowerCase (f @ ''-'' @ l) = toLowerCase f @ CHR ''-'' # toLowerCase l"
    by (simp add: toLowerCase_def lower_hyphen)
  then show ?thesis
    using hyphen_plain
    by (simp add: generateSlug_def trim_sep replace_space_runs_sep)
qed

lemma generateSlug_trimmed:
  assumes "trim f = f" "trim l = l"
  shows "generateSlug f l = deriveSlug_spec f l"
proof -
  have f: "trim (toLowerCase f) = toLowerCase f" and l: "trim (toLowerCase l) = toLowerCase l"
    using assms by (simp_all add: trim_lower)
  show ?thesis
    unfolding generateSlug_shape deriveSlug_spec_def f l
    using trim_fixed(1) [OF f] trim_fixed(2) [OF l] by simp
qed

lemma generateSlug_ascii:
  assumes "list_all is_ascii f" "list_all is_ascii l"
  shows "list_all (\<lambda>c. is_ascii c \<and> \<not> is_upper c \<and> \<not> is_space c) (generateSlug f l)"
proof -
  let ?j = "f @ ''-'' @ l"
  have j: "\<forall>c \<in> set ?j. is_ascii c" using assms hyphen_plain by (auto simp: list_all_iff)
  have "\<forall>c \<in> set (toLowerCase ?j). is_ascii c \<and> \<not> is_upper c"
    unfolding toLowerCase_def using j lower_char_ascii by auto
  then have "\<forall>c \<in> set (trim (toLowerCase ?j)). is_ascii c \<and> \<not> is_upper c"
    using set_trim by blast
  then show ?thesis
    unfolding generateSlug_def list_all_iff
    using set_replace_space_runs [of "trim (toLowerCase ?j)"] hyphen_plain by auto
qed

lemma dropWhile_butlast_space:
  assumes "dropWhile P ys = ys"
  shows "dropWhile P (rev (dropWhile P (rev ys))) = rev (dropWhile P (rev ys))"
proof (cases "rev (dropWhile P (rev ys))")
  case Nil
  show ?thesis unfolding Nil by simp
next
  case (Cons z zs)
  have "rev (dropWhile P (rev ys)) = take (length (rev (dropWhile P (rev ys)))) ys"
    by (metis append_eq_conv_conj rev_append rev_rev_ident takeWhile_dropWhile_id)
  then have "hd (rev (dropWhile P (rev ys))) = hd ys" and "ys \<noteq> []"
    using Cons by (metis hd_take length_greater_0_conv list.distinct(1) take_eq_Nil)+
  moreover have "\<not> P (hd ys)"
    using assms \<open>ys \<noteq> []\<close> by (metis hd_dropWhile)
  ultimately show ?thesis
    using Cons by (metis dropWhile.simps(2) list.sel(1))
qed

lemma trim_trim: "trim (trim s) = trim s"
proof -
  let ?ys = "dropWhile is_space s"
  have a: "dropWhile is_space (rev (dropWhile is_space (rev ?ys))) = rev (dropWhile is_space (rev ?ys))"
    by (rule dropWhile_butlast_space) (simp add: dropWhile_idem)
  show ?thesis
    unfolding trim_def a by (simp add: dropWhile_idem)
qed

lemma generateSlug_of_trimmed:
  "generateSlug (trim f) (trim l) = deriveSlug_spec f l"
proof -
  have "generateSlug (trim f) (trim l) = deriveSlug_spec (trim f) (trim l)"
    by (rule generateSlug_trimmed) (simp_all add: trim_trim)
  also have "\<dots> = deriveSlug_spec f l"
    by (simp add: deriveSlug_spec_def trim_lower trim_trim)
  finally show ?thesis .
qed

text \<open>
  C4, as the specification states it, fails on the code: for the names \<open>John\<close> and
  \<open>Doe\<close> with a blank on either side the slug is \<open>john--doe\<close>, not \<open>john-doe\<close>.
  \<open>generateSlug\<close> joins first and trims afterwards, so the blank after the joining
  hyphen is no longer at an end of the string and becomes a second hyphen.
\<close>

theorem generateSlug_untrimmed_counterexample:
  "generateSlug ''John'' '' Doe '' = ''john--doe'' \<and> generateSlug ''John'' '' Doe '' \<noteq> ''john-doe''"
  by code_simp

text \<open>
  C4 (amended).  For every pair of names, \<open>generateSlug\<close> is the lowercased first
  name without its leading white space, and the lowercased last name without its
  trailing white space, each with its whitespace runs replaced by single hyphens,
  joined by a hyphen: white space next to the joining hyphen is not trimmed but turned
  into a further hyphen.  For names without white space at their ends (the form trims
  both before the call) this is what the specification describes: each name lowercased,
  trimmed and collapsed, joined by a hyphen.  For ASCII names the slug has only ASCII
  characters, none of them an upper-case letter or white space.
\<close>

theorem generateSlug_joined_then_trimmed:
  "generateSlug first_name last_name =
     replace_space_runs (dropWhile is_space (toLowerCase first_name)) @ ''-'' @
     replace_space_runs (rev (dropWhile is_space (rev (toLowerCase last_name))))
   \<and> (trim first_name = first_name \<and> trim last_name = last_name \<longrightarrow>
        generateSlug first_name last_name = deriveSlug_spec first_name last_name)
   \<and> (list_all is_ascii first_name \<and> list_all is_ascii last_name \<longrightarrow>
        list_all (\<lambda>c. is_ascii c \<and> \<not> is_upper c \<and> \<not> is_space c)
          (generateSlug first_name last_name))"
  using generateSlug_shape generateSlug_trimmed generateSlug_ascii by blast

theorem generateSlug_joined_then_trimmed_witness:
  "trim ''John'' = ''John'' \<and> trim ''Doe'' = ''Doe''
   \<and> list_all is_ascii ''John'' \<and> list_all is_ascii ''Doe''
   \<and> generateSlug ''John'' ''Doe'' = ''john-doe''
   \<and> deriveSlug_spec ''John'' ''Doe'' = ''john-doe''
   \<and> list_all (\<lambda>c. is_ascii c \<and> \<not> is_upper c \<and> \<not> is_space c) (generateSlug ''John'' ''Doe'')"
proof -
  have h: "trim ''John'' = ''John'' \<and> trim ''Doe'' = ''Doe''"
    and a: "list_all is_ascii ''John'' \<and> list_all is_ascii ''Doe''"
    by code_simp+
  have s: "deriveSlug_spec ''John'' ''Doe'' = ''john-doe''"
    by code_simp
  from generateSlug_joined_then_trimmed [of "''John''" "''Doe''"] h a
  have "generateSlug ''John'' ''Doe'' = deriveSlug_spec ''John'' ''Doe''"
    and "list_all (\<lambda>c. is_ascii c \<and> \<not> is_upper c \<and> \<not> is_space c) (generateSlug ''John'' ''Doe'')"
    by blast+
  with h a s show ?thesis by simp
qed

section \<open>Contact card\<close>




lemma no_line_break_append [simp]:
  "no_line_break (a @ b) = (no_line_break a \<and> no_line_break b)"
  by (simp add: no_line_break_def)












section \<open>Profile page\<close>

text \<open>
  C8.  When the query string has no \<open>person\<close> parameter, \<open>initProfilePage\<close> shows
  the message that no employee is specified and does nothing else: it sends no request.
\<close>

theorem initProfilePage_missing_parameter:
  assumes "getQueryParam search ''person'' = None"
  shows "initProfilePage render_returns search network =
           [ShowProfileError ''No employee specified. Use ?person={slug}'']
       \<and> fetched_urls (initProfilePage render_returns search network) = []"
  using assms by (simp add: initProfilePage_def fetched_urls_def)

theorem initProfilePage_missing_parameter_witness:
  "getQueryParam [(''page'', ''2'')] ''person'' = None
   \<and> initProfilePage (\<lambda>v. True) [(''page'', ''2'')] (\<lambda>url. Response 200 (Some (JObj []))) =
       [ShowProfileError ''No employee specified. Use ?person={slug}'']
   \<and> fetched_urls
        (initProfilePage (\<lambda>v. True) [(''page'', ''2'')] (\<lambda>url. Response 200 (Some (JObj [])))) = []"
proof -
  have h: "getQueryParam [(''page'', ''2'')] ''person'' = None"
    by (simp add: getQueryParam_def)
  from initProfilePage_missing_parameter
         [OF h, of "\<lambda>v. True" "\<lambda>url. Response 200 (Some (JObj []))"] h
  show ?thesis by blast
qed

text \<open>
  C10.  A \<open>person\<close> parameter that is present with an empty value (\<open>?person=\<close>) is
  treated as an absent one: the same message is shown and no request is sent; there is
  no lookup of the empty slug.
\<close>

theorem initProfilePage_empty_parameter:
  assumes "getQueryParam search ''person'' = Some []"
  shows "initProfilePage render_returns search network =
           initProfilePage render_returns [] network
       \<and> initProfilePage render_returns search network =
           [ShowProfileError ''No employee specified. Use ?person={slug}'']
       \<and> fetched_urls (initProfilePage render_returns search network) = []"
  using assms by (simp add: initProfilePage_def fetched_urls_def getQueryParam_def)

theorem initProfilePage_empty_parameter_witness:
  "getQueryParam [(''person'', [])] ''person'' = Some []
   \<and> initProfilePage (\<lambda>v. True) [(''person'', [])] (\<lambda>url. Response 200 (Some (JObj []))) =
       [ShowProfileError ''No employee specified. Use ?person={slug}'']
   \<and> fetched_urls
        (initProfilePage (\<lambda>v. True) [(''person'', [])] (\<lambda>url. Response 200 (Some (JObj [])))) = []"
proof -
  have h: "getQueryParam [(''person'', [])] ''person'' = Some []"
    by (simp add: getQueryParam_def)
  from initProfilePage_empty_parameter
         [OF h, of "\<lambda>v. True" "\<lambda>url. Response 200 (Some (JObj []))"] h
  show ?thesis by blast
qed

text \<open>
  C7, as the specification states it, fails on the code: the state for a slug with no
  record behind it (status 404) and the state for a record that is there but is not
  JSON (status 200, unparsable body) are the same state.  \<open>loadProfile\<close> has one
  \<open>catch\<close> for every way the lookup can fail.
\<close>

theorem loadProfile_malformed_counterexample:
  "loadProfile (\<lambda>v. True) ''ghost'' (Response 404 None) =
   loadProfile (\<lambda>v. True) ''ghost'' (Response 200 None)"
  by (simp add: loadProfile_def fetchJson_def response_ok_def)

text \<open>
  C7 (amended).  A direct profile lookup for a slug with no backing record (a response
  whose status is not a success) ends in the "not found" state, which carries the
  requested slug; a record that exists but cannot be parsed, and a request that fails
  on the network, end in that same state.  The one request sent is for the record of
  the slug: the directory index is never consulted.
\<close>

theorem loadProfile_not_found:
  "(\<not> response_ok status \<longrightarrow>
      loadProfile render_returns sl (Response status body) =
        [Fetch (BASE_URL @ ''/'' @ sl @ ''/data.json''),
         ShowProfileError (''Employee not found: '' @ sl)])
   \<and> loadProfile render_returns sl (Response status None) =
        [Fetch (BASE_URL @ ''/'' @ sl @ ''/data.json''),
         ShowProfileError (''Employee not found: '' @ sl)]
   \<and> loadProfile render_returns sl NetworkFailure =
        [Fetch (BASE_URL @ ''/'' @ sl @ ''/data.json''),
         ShowProfileError (''Employee not found: '' @ sl)]"
  by (simp add: loadProfile_def fetchJson_def Let_def)

theorem loadProfile_not_found_witness:
  "\<not> response_ok 404
   \<and> loadProfile (\<lambda>v. True) ''ghost'' (Response 404 None) =
       [Fetch ''/employee-cards/ghost/data.json'', ShowProfileError ''Employee not found: ghost'']"
proof -
  have h: "\<not> response_ok 404"
    by (simp add: response_ok_def)
  from loadProfile_not_found [of 404 "\<lambda>v. True" "''ghost''" None] h
  show ?thesis by (simp add: BASE_URL_def)
qed

section \<open>Directory and management views\<close>

lemma schedule_length:
  assumes "distinct xs" "set xs \<subseteq> {..<n}"
  shows "length xs \<le> n"
proof -
  have "card (set xs) \<le> card {..<n}" using assms(2) by (intro card_mono) auto
  then show ?thesis using assms(1) by (simp add: distinct_card)
qed

lemma schedule_set: "is_schedule n schedule \<Longrightarrow> set schedule = {..<n}"
  by (simp add: is_schedule_def atLeast0LessThan)

lemma schedule_full_length:
  assumes "is_schedule n schedule"
  shows "length schedule = n"
proof -
  have "distinct schedule"
    using assms by (simp add: is_schedule_def)
  then have "card (set schedule) = length schedule"
    by (rule distinct_card)
  then show ?thesis
    using schedule_set [OF assms] by simp
qed

lemma filter_truthy_upto:
  assumes "\<forall>k. aelems a k \<noteq> None \<longrightarrow> k < alength a" "alength a \<le> n"
  shows "filter_truthy a =
           concat (map (\<lambda>k. case aelems a k of None \<Rightarrow> [] | Some v \<Rightarrow> if truthy v then [v] else [])
                       [0..<n])"
proof -
  let ?g = "\<lambda>k. case aelems a k of None \<Rightarrow> [] | Some v \<Rightarrow> if truthy v then [v] else []"
  have split: "[0..<n] = [0..<alength a] @ [alength a..<n]"
    using assms(2) by (metis le_add_diff_inverse upt_add_eq_append zero_le)
  have "\<forall>k \<in> set [alength a..<n]. ?g k = []"
    using assms(1) by (auto split: option.splits)
  then have "concat (map ?g [alength a..<n]) = []"
    by simp
  then show ?thesis
    unfolding filter_truthy_def split by simp
qed

lemma resolved_in_order_index:
  assumes "length outcomes = length slugs"
  shows "resolved_in_order slugs outcomes =
           concat (map (\<lambda>k. case fetchJson (dataUrl_of (slugs ! k)) (outcomes ! k) of
                               Inl err \<Rightarrow> [] | Inr v \<Rightarrow> [v])
                       [0..<length slugs])"
proof -
  have "zip slugs outcomes = map (\<lambda>k. (slugs ! k, outcomes ! k)) [0..<length slugs]"
    using assms by (intro nth_equalityI) auto
  then show ?thesis
    by (simp add: resolved_in_order_def comp_def)
qed

lemma filter_concat_map: "filter P (concat (map f xs)) = concat (map (\<lambda>x. filter P (f x)) xs)"
  by (induction xs) auto

text \<open>What the array holds once every lookup has settled gives the truthy resolved values in index order.\<close>

lemma settled_array_filter:
  assumes "length outcomes = length slugs"
    and "\<And>k. aelems a k =
              (if k < length slugs
               then (case fetchJson (dataUrl_of (slugs ! k)) (outcomes ! k) of
                       Inl err \<Rightarrow> None | Inr v \<Rightarrow> Some v)
               else None)"
    and "\<forall>k. aelems a k \<noteq> None \<longrightarrow> k < alength a"
    and "alength a \<le> length slugs"
  shows "filter_truthy a = filter truthy (resolved_in_order slugs outcomes)"
proof -
  let ?n = "length slugs"
  have "filter_truthy a =
          concat (map (\<lambda>k. case aelems a k of None \<Rightarrow> [] | Some v \<Rightarrow> if truthy v then [v] else [])
                      [0..<?n])"
    using assms(3,4) by (rule filter_truthy_upto)
  also have "\<dots> = concat (map (\<lambda>k. filter truthy
                        (case fetchJson (dataUrl_of (slugs ! k)) (outcomes ! k) of
                               Inl err \<Rightarrow> [] | Inr v \<Rightarrow> [v])) [0..<?n])"
    by (intro arg_cong [where f = concat] map_cong refl) (simp add: assms(2) split: sum.splits)
  also have "\<dots> = filter truthy (resolved_in_order slugs outcomes)"
    by (simp add: resolved_in_order_index [OF assms(1)] filter_concat_map)
  finally show ?thesis .
qed

lemma directory_run:
  fixes slugs :: "string list" and outcomes :: "fetch_outcome list" and n :: nat
  assumes "distinct ds" "set ds \<subseteq> {..<n}"
  defines "st \<equiv> foldl (\<lambda>st i. directory_settle n (slugs ! i) i (outcomes ! i) st) directory_start ds"
  shows "loaded st + failed st = length ds
       \<and> (\<forall>k. aelems (cards st) k =
              (if k \<in> set ds
               then (case fetchJson (dataUrl_of (slugs ! k)) (outcomes ! k) of
                       Inl err \<Rightarrow> None | Inr v \<Rightarrow> Some v)
               else None))
       \<and> (\<forall>k. aelems (cards st) k \<noteq> None \<longrightarrow> k < alength (cards st))
       \<and> alength (cards st) \<le> n
       \<and> render_calls st = (if ds \<noteq> [] \<and> length ds = n then [filter_truthy (cards st)] else [])
       \<and> view st = (if ds \<noteq> [] \<and> length ds = n
                     then (if filter_truthy (cards st) = [] then EmptyMessage
                           else Entries (filter_truthy (cards st)))
                     else Loading)"
  using assms(1,2) unfolding st_def
proof (induction ds rule: rev_induct)
  case Nil
  then show ?case by (simp add: directory_start_def empty_array_def)
next
  case (snoc x xs)
  define s where "s = foldl (\<lambda>st i. directory_settle n (slugs ! i) i (outcomes ! i) st) directory_start xs"
  have d: "distinct xs" "set xs \<subseteq> {..<n}" "x \<notin> set xs" "x < n"
    using snoc.prems by auto
  have "length (xs @ [x]) \<le> n"
    using snoc.prems by (rule schedule_length)
  then have lt: "length xs < n" by simp
  note ih = snoc.IH [OF d(1,2), folded s_def]
  from ih lt have rc: "render_calls s = []" by auto
  have step: "foldl (\<lambda>st i. directory_settle n (slugs ! i) i (outcomes ! i) st) directory_start (xs @ [x])
      = directory_settle n (slugs ! x) x (outcomes ! x) s"
    by (simp add: s_def)
  show ?case
  proof (cases "fetchJson (dataUrl_of (slugs ! x)) (outcomes ! x)")
    case (Inl err)
    with ih rc d lt show ?thesis
      unfolding step
      by (auto simp: directory_settle_def Let_def renderDirectoryCards_def)
  next
    case (Inr v)
    with ih rc d lt show ?thesis
      unfolding step
      by (simp add: directory_settle_def Let_def renderDirectoryCards_def array_set_def
             less_max_iff_disj)
  qed
qed

lemma directory_final:
  assumes "slugs \<noteq> []" "length outcomes = length slugs" "is_schedule (length slugs) schedule"
  defines "st \<equiv> loadDirectory slugs outcomes schedule"
  defines "shown \<equiv> filter truthy (resolved_in_order slugs outcomes)"
  shows "render_calls st = [shown]"
    and "view st = (if shown = [] then EmptyMessage else Entries shown)"
    and "loaded st + failed st = length slugs"
proof -
  let ?n = "length slugs"
  have st: "st = foldl (\<lambda>st i. directory_settle ?n (slugs ! i) i (outcomes ! i) st) directory_start schedule"
    using assms(1) by (simp add: st_def loadDirectory_def)
  have d: "distinct schedule"
    using assms(3) by (simp add: is_schedule_def)
  have s: "set schedule = {..<?n}"
    using assms(3) by (rule schedule_set)
  have sub: "set schedule \<subseteq> {..<?n}" using s by simp
  have len: "length schedule = ?n"
    using assms(3) by (rule schedule_full_length)
  have ne: "schedule \<noteq> []" using len assms(1) by auto
  note inv = directory_run [OF d sub, of slugs outcomes, folded st]
  have el: "aelems (cards st) k =
              (if k < ?n
               then (case fetchJson (dataUrl_of (slugs ! k)) (outcomes ! k) of
                       Inl err \<Rightarrow> None | Inr v \<Rightarrow> Some v)
               else None)" for k
    using inv s by simp
  have bound: "\<forall>k. aelems (cards st) k \<noteq> None \<longrightarrow> k < alength (cards st)"
        "alength (cards st) \<le> ?n"
    using inv by blast+
  have f: "filter_truthy (cards st) = shown"
    unfolding shown_def using assms(2) el bound by (rule settled_array_filter)
  show "render_calls st = [shown]"
    using inv len ne f by simp
  show "view st = (if shown = [] then EmptyMessage else Entries shown)"
    using inv len ne f by simp
  show "loaded st + failed st = length slugs"
    using inv len by simp
qed

lemma manage_run:
  fixes slugs :: "string list" and outcomes :: "fetch_outcome list" and n :: nat
  assumes "distinct ds" "set ds \<subseteq> {..<n}"
  defines "st \<equiv> foldl (\<lambda>st i. manage_settle n (slugs ! i) i (outcomes ! i) st) manage_start ds"
  shows "m_loaded st = length ds
       \<and> (\<forall>k. aelems (m_employees st) k =
              (if k \<in> set ds
               then (case fetchJson (dataUrl_of (slugs ! k)) (outcomes ! k) of
                       Inl err \<Rightarrow> None | Inr v \<Rightarrow> Some v)
               else None))
       \<and> (\<forall>k. aelems (m_employees st) k \<noteq> None \<longrightarrow> k < alength (m_employees st))
       \<and> alength (m_employees st) \<le> n
       \<and> m_render_calls st = (if ds \<noteq> [] \<and> length ds = n then [filter_truthy (m_employees st)] else [])
       \<and> m_view st = (if ds \<noteq> [] \<and> length ds = n
                     then (if filter_truthy (m_employees st) = [] then EmptyMessage
                           else Entries (filter_truthy (m_employees st)))
                     else Loading)"
  using assms(1,2) unfolding st_def
proof (induction ds rule: rev_induct)
  case Nil
  then show ?case by (simp add: manage_start_def empty_array_def)
next
  case (snoc x xs)
  define s where "s = foldl (\<lambda>st i. manage_settle n (slugs ! i) i (outcomes ! i) st) manage_start xs"
  have d: "distinct xs" "set xs \<subseteq> {..<n}" "x \<notin> set xs" "x < n"
    using snoc.prems by auto
  have "length (xs @ [x]) \<le> n"
    using snoc.prems by (rule schedule_length)
  then have lt: "length xs < n" by simp
  note ih = snoc.IH [OF d(1,2), folded s_def]
  from ih lt have rc: "m_render_calls s = []" by auto
  have step: "foldl (\<lambda>st i. manage_settle n (slugs ! i) i (outcomes ! i) st) manage_start (xs @ [x])
      = manage_settle n (slugs ! x) x (outcomes ! x) s"
    by (simp add: s_def)
  show ?case
  proof (cases "fetchJson (dataUrl_of (slugs ! x)) (outcomes ! x)")
    case (Inl err)
    with ih rc d lt show ?thesis
      unfolding step
      by (auto simp: manage_settle_def Let_def renderManageList_def)
  next
    case (Inr v)
    with ih rc d lt show ?thesis
      unfolding step
      by (simp add: manage_settle_def Let_def renderManageList_def array_set_def
             less_max_iff_disj)
  qed
qed

lemma manage_final:
  assumes "slugs \<noteq> []" "length outcomes = length slugs" "is_schedule (length slugs) schedule"
  defines "st \<equiv> loadManageList slugs outcomes schedule"
  defines "shown \<equiv> filter truthy (resolved_in_order slugs outcomes)"
  shows "m_render_calls st = [shown]"
    and "m_view st = (if shown = [] then EmptyMessage else Entries shown)"
    and "m_loaded st = length slugs"
proof -
  let ?n = "length slugs"
  have st: "st = foldl (\<lambda>st i. manage_settle ?n (slugs ! i) i (outcomes ! i) st) manage_start schedule"
    using assms(1) by (simp add: st_def loadManageList_def)
  have d: "distinct schedule"
    using assms(3) by (simp add: is_schedule_def)
  have s: "set schedule = {..<?n}"
    using assms(3) by (rule schedule_set)
  have sub: "set schedule \<subseteq> {..<?n}" using s by simp
  have len: "length schedule = ?n"
    using assms(3) by (rule schedule_full_length)
  have ne: "schedule \<noteq> []" using len assms(1) by auto
  note inv = manage_run [OF d sub, of slugs outcomes, folded st]
  have el: "aelems (m_employees st) k =
              (if k < ?n
               then (case fetchJson (dataUrl_of (slugs ! k)) (outcomes ! k) of
                       Inl err \<Rightarrow> None | Inr v \<Rightarrow> Some v)
               else None)" for k
    using inv s by simp
  have bound: "\<forall>k. aelems (m_employees st) k \<noteq> None \<longrightarrow> k < alength (m_employees st)"
        "alength (m_employees st) \<le> ?n"
    using inv by blast+
  have f: "filter_truthy (m_employees st) = shown"
    unfolding shown_def using assms(2) el bound by (rule settled_array_filter)
  show "m_render_calls st = [shown]"
    using inv len ne f by simp
  show "m_view st = (if shown = [] then EmptyMessage else Entries shown)"
    using inv len ne f by simp
  show "m_loaded st = length slugs"
    using inv len by simp
qed

text \<open>Replacing a lookup that resolves with a falsy value by one that fails leaves the shown list unchanged.\<close>

lemma shown_falsy_as_failed:
  assumes "length outcomes = length slugs" "i < length slugs"
    and "fetchJson (dataUrl_of (slugs ! i)) (outcomes ! i) = Inr v" "\<not> truthy v"
    and "fetchJson (dataUrl_of (slugs ! i)) lost = Inl err"
  shows "filter truthy (resolved_in_order slugs (outcomes[i := lost])) =
         filter truthy (resolved_in_order slugs outcomes)"
proof -
  have len: "length (outcomes[i := lost]) = length slugs"
    using assms(1) by simp
  have "filter truthy (case fetchJson (dataUrl_of (slugs ! k)) (outcomes[i := lost] ! k) of
                               Inl err \<Rightarrow> [] | Inr v \<Rightarrow> [v]) =
        filter truthy (case fetchJson (dataUrl_of (slugs ! k)) (outcomes ! k) of
                               Inl err \<Rightarrow> [] | Inr v \<Rightarrow> [v])" if "k < length slugs" for k
  proof (cases "k = i")
    case True
    then show ?thesis using assms by simp
  next
    case False
    then show ?thesis by simp
  qed
  then show ?thesis
    unfolding resolved_in_order_index [OF len] resolved_in_order_index [OF assms(1)] filter_concat_map
    by (intro arg_cong [where f = concat] map_cong refl) simp
qed

lemma falsy_values: "(\<not> truthy v) = (v \<in> {JNull, JBool False, JNum 0, JStr []})"
  by (cases v) auto

text \<open>
  C1.  For every list of slugs, every way each lookup ends and every order in which
  the lookups settle, \<open>renderDirectoryCards\<close> is called exactly once, when the last
  lookup has settled, with the resolved records in the order of the slug list: a
  lookup that settles late keeps its place, a lookup that fails is left out.  The page
  then shows these records, or the empty message when there is none.  With no slugs
  there is no lookup and no call, and the page shows the empty message.  (A record is
  a JSON object; the hypothesis on the resolved values is only that they are truthy,
  which every object is.)
\<close>

theorem loadDirectory_order_preserved:
  assumes "length outcomes = length slugs"
    and "is_schedule (length slugs) schedule"
    and "list_all truthy (resolved_in_order slugs outcomes)"
  shows "render_calls (loadDirectory slugs outcomes schedule) =
           (if slugs = [] then [] else [resolved_in_order slugs outcomes])
       \<and> view (loadDirectory slugs outcomes schedule) =
           (if resolved_in_order slugs outcomes = [] then EmptyMessage
            else Entries (resolved_in_order slugs outcomes))"
proof (cases "slugs = []")
  case True
  then show ?thesis
    by (simp add: loadDirectory_def directory_start_def resolved_in_order_def)
next
  case False
  have "filter truthy (resolved_in_order slugs outcomes) = resolved_in_order slugs outcomes"
    using assms(3) by (simp add: list_all_iff)
  with directory_final(1,2) [OF False assms(1,2)] False show ?thesis by simp
qed

theorem loadDirectory_order_preserved_witness:
  "render_calls
     (loadDirectory [''a'', ''b'', ''c'']
        [Response 200 (Some (JObj [(''slug'', JStr ''a'')])),
         Response 404 None,
         Response 200 (Some (JObj [(''slug'', JStr ''c'')]))]
        [1, 0, 2])
   = [[JObj [(''slug'', JStr ''a'')], JObj [(''slug'', JStr ''c'')]]]"
proof -
  let ?slugs = "[''a'', ''b'', ''c'']"
  let ?outcomes = "[Response 200 (Some (JObj [(''slug'', JStr ''a'')])),
         Response 404 None,
         Response 200 (Some (JObj [(''slug'', JStr ''c'')]))]"
  have r: "resolved_in_order ?slugs ?outcomes = [JObj [(''slug'', JStr ''a'')], JObj [(''slug'', JStr ''c'')]]"
    by (simp add: resolved_in_order_def fetchJson_def response_ok_def)
  have h2: "length ?outcomes = length ?slugs" by simp
  have h3: "is_schedule (length ?slugs) [1, 0, 2]" by code_simp
  have h4: "list_all truthy (resolved_in_order ?slugs ?outcomes)" unfolding r by simp
  show ?thesis
    using loadDirectory_order_preserved [OF h2 h3 h4] unfolding r by simp
qed

text \<open>
  C9.  In the directory and in the management view, a lookup that succeeds with a
  falsy JSON value (\<open>null\<close>, \<open>false\<close>, \<open>0\<close> or the empty string) is counted as
  settled (the counters reach the number of slugs and the list is rendered), but the
  value is not in the rendered list: the rendered list and the page are the same as
  when that lookup had failed outright.
\<close>

theorem falsy_record_excluded:
  assumes "slugs \<noteq> []"
    and "length outcomes = length slugs"
    and "is_schedule (length slugs) schedule"
    and "i < length slugs"
    and "outcomes ! i = Response status (Some v)"
    and "response_ok status"
    and "v \<in> {JNull, JBool False, JNum 0, JStr []}"
    and "fetchJson (dataUrl_of (slugs ! i)) lost = Inl err"
  shows "loaded (loadDirectory slugs outcomes schedule) +
           failed (loadDirectory slugs outcomes schedule) = length slugs
       \<and> m_loaded (loadManageList slugs outcomes schedule) = length slugs
       \<and> render_calls (loadDirectory slugs outcomes schedule) =
           render_calls (loadDirectory slugs (outcomes[i := lost]) schedule)
       \<and> view (loadDirectory slugs outcomes schedule) =
           view (loadDirectory slugs (outcomes[i := lost]) schedule)
       \<and> m_render_calls (loadManageList slugs outcomes schedule) =
           m_render_calls (loadManageList slugs (outcomes[i := lost]) schedule)
       \<and> m_view (loadManageList slugs outcomes schedule) =
           m_view (loadManageList slugs (outcomes[i := lost]) schedule)
       \<and> v \<notin> set (concat (render_calls (loadDirectory slugs outcomes schedule)))
       \<and> v \<notin> set (concat (m_render_calls (loadManageList slugs outcomes schedule)))"
proof -
  have len: "length (outcomes[i := lost]) = length slugs"
    using assms(2) by simp
  have res: "fetchJson (dataUrl_of (slugs ! i)) (outcomes ! i) = Inr v"
    using assms(5,6) by (simp add: fetchJson_def)
  have falsy: "\<not> truthy v"
    using assms(7) by (simp add: falsy_values)
  have same: "filter truthy (resolved_in_order slugs (outcomes[i := lost])) =
              filter truthy (resolved_in_order slugs outcomes)"
    using assms(2,4) res falsy assms(8) by (rule shown_falsy_as_failed)
  have out: "v \<notin> set (filter truthy (resolved_in_order slugs outcomes))"
    using falsy by simp
  show ?thesis
    using directory_final [OF assms(1,2,3)] directory_final [OF assms(1) len assms(3)]
      manage_final [OF assms(1,2,3)] manage_final [OF assms(1) len assms(3)] same out
    by simp
qed

theorem falsy_record_excluded_witness:
  "render_calls
     (loadDirectory [''a'', ''b'']
        [Response 200 (Some JNull), Response 200 (Some (JObj [(''slug'', JStr ''b'')]))] [1, 0])
   = render_calls
     (loadDirectory [''a'', ''b'']
        [Response 404 None, Response 200 (Some (JObj [(''slug'', JStr ''b'')]))] [1, 0])
   \<and> m_render_calls
     (loadManageList [''a'', ''b'']
        [Response 200 (Some JNull), Response 200 (Some (JObj [(''slug'', JStr ''b'')]))] [1, 0])
   = m_render_calls
     (loadManageList [''a'', ''b'']
        [Response 404 None, Response 200 (Some (JObj [(''slug'', JStr ''b'')]))] [1, 0])
   \<and> render_calls
     (loadDirectory [''a'', ''b'']
        [Response 404 None, Response 200 (Some (JObj [(''slug'', JStr ''b'')]))] [1, 0])
   = [[JObj [(''slug'', JStr ''b'')]]]"
proof -
  let ?slugs = "[''a'', ''b'']"
  let ?outcomes = "[Response 200 (Some JNull), Response 200 (Some (JObj [(''slug'', JStr ''b'')]))]"
  have h1: "?slugs \<noteq> []" by simp
  have h2: "length ?outcomes = length ?slugs" by simp
  have h3: "is_schedule (length ?slugs) [1, 0]" by code_simp
  have h4: "0 < length ?slugs" by simp
  have h5: "?outcomes ! 0 = Response 200 (Some JNull)" by simp
  have h6: "response_ok 200" by (simp add: response_ok_def)
  have h7: "JNull \<in> {JNull, JBool False, JNum 0, JStr []}" by simp
  have h8: "fetchJson (dataUrl_of (?slugs ! 0)) (Response 404 None) =
              Inl (Error (''Failed to fetch '' @ dataUrl_of ''a'' @ '': '' @ show_nat 404))"
    by (simp add: fetchJson_def response_ok_def)
  have e: "render_calls
     (loadDirectory [''a'', ''b'']
        [Response 404 None, Response 200 (Some (JObj [(''slug'', JStr ''b'')]))] [1, 0])
   = [[JObj [(''slug'', JStr ''b'')]]]"
    by code_simp
  from falsy_record_excluded [OF h1 h2 h3 h4 h5 h6 h7 h8] e
  show ?thesis by simp
qed


section \<open>The archive\<close>

lemma put_entry_new:
  "name \<notin> fst ` set entries \<Longrightarrow> put_entry entries name content = entries @ [(name, content)]"
  by (induction entries name content rule: put_entry.induct) auto

lemma folder_file_single:
  "folder_file [(sl, entries)] sl name content = [(sl, put_entry entries name content)]"
  by (simp add: folder_file_def)

lemma add_media_run:
  assumes "distinct (map filename ms)"
    and "\<forall>m \<in> set ms. filename m \<notin> fst ` set entries"
  shows "add_media sl totalMedia ms ([(sl, entries)], processed, generated) =
           ([(sl, entries @ map (\<lambda>m. (filename m, FileEntry (media_file m))) ms)],
            processed + length ms,
            generated @
              (if processed < totalMedia \<and> totalMedia \<le> processed + length ms
               then [[(sl, entries @ map (\<lambda>m. (filename m, FileEntry (media_file m)))
                                          (take (totalMedia - processed) ms))]]
               else []))"
  using assms
proof (induction ms arbitrary: entries processed generated)
  case Nil
  then show ?case by simp
next
  case (Cons m ms)
  let ?entries1 = "entries @ [(filename m, FileEntry (media_file m))]"
  have new: "filename m \<notin> fst ` set entries"
    using Cons.prems(2) by simp
  have d: "distinct (map filename ms)"
    using Cons.prems(1) by simp
  have "filename m \<notin> filename ` set ms"
    using Cons.prems(1) by simp
  then have "\<forall>x \<in> set ms. filename x \<noteq> filename m"
    by (metis imageI)
  then have fresh: "\<forall>x \<in> set ms. filename x \<notin> fst ` set ?entries1"
    using Cons.prems(2) by simp
  have step: "add_media sl totalMedia (m # ms) ([(sl, entries)], processed, generated) =
      add_media sl totalMedia ms ([(sl, ?entries1)], processed + 1,
        (if processed + 1 = totalMedia then generated @ [[(sl, ?entries1)]] else generated))"
    by (simp add: Let_def folder_file_single put_entry_new [OF new])
  show ?case
  proof (cases "processed + 1 = totalMedia")
    case True
    then have t: "totalMedia - processed = Suc 0" by simp
    show ?thesis
      unfolding step Cons.IH [OF d fresh] using True by (simp add: t)
  next
    case False
    then have "totalMedia - processed = Suc (totalMedia - (processed + 1)) \<or> totalMedia \<le> processed"
      by auto
    then show ?thesis
      unfolding step Cons.IH [OF d fresh] using False by (auto simp: take_Cons')
  qed
qed

lemma createEmployeeZip_generated_layout:
  assumes "distinct (map filename mediaFiles)"
    and "\<forall>m \<in> set mediaFiles. filename m \<notin> {''data.json'', ''contact.vcf'', headshot employeeData}"
    and "headshot employeeData = ''headshot'' @ ext"
  shows "createEmployeeZip_generated stringify sl employeeData vcard headshotFile mediaFiles =
           [[(sl, [(''data.json'', TextEntry (stringify employeeData)),
                   (''contact.vcf'', TextEntry vcard),
                   (headshot employeeData, FileEntry headshotFile)] @
                  map (\<lambda>m. (filename m, FileEntry (media_file m))) mediaFiles)]]"
proof -
  let ?base = "[(''data.json'', TextEntry (stringify employeeData)),
                (''contact.vcf'', TextEntry vcard),
                (headshot employeeData, FileEntry headshotFile)]"
  have h: "headshot employeeData \<noteq> ''data.json''" "headshot employeeData \<noteq> ''contact.vcf''"
    using assms(3) by auto
  have z3: "folder_file (folder_file (folder_file (zip_folder [] sl) sl ''data.json''
              (TextEntry (stringify employeeData))) sl ''contact.vcf'' (TextEntry vcard)) sl
              (headshot employeeData) (FileEntry headshotFile) = [(sl, ?base)]"
    using h by (simp add: zip_folder_def folder_file_def)
  have fresh: "\<forall>m \<in> set mediaFiles. filename m \<notin> fst ` set ?base"
    using assms(2) by simp
  show ?thesis
  proof (cases "mediaFiles = []")
    case True
    then show ?thesis
      unfolding createEmployeeZip_generated_def Let_def z3 by simp
  next
    case False
    then show ?thesis
      unfolding createEmployeeZip_generated_def Let_def z3
      by (simp add: add_media_run [OF assms(1) fresh])
  qed
qed

text \<open>
  Whatever the file names are, \<open>generateAsync\<close> is called exactly once, so the
  promise of \<open>createEmployeeZip\<close> always settles.
\<close>

lemma add_media_calls:
  "length (snd (snd (add_media folder totalMedia ms (z, processed, generated)))) =
     length generated + (if processed < totalMedia \<and> totalMedia \<le> processed + length ms then 1 else 0)"
proof (induction ms arbitrary: z processed generated)
  case Nil
  then show ?case by simp
next
  case (Cons m ms)
  show ?case
    by (simp add: Let_def Cons.IH) 
qed

lemma createEmployeeZip_generated_once:
  "length (createEmployeeZip_generated stringify sl employeeData vcard headshotFile mediaFiles) = 1"
  by (simp add: createEmployeeZip_generated_def Let_def add_media_calls)

lemma createEmployeeZip_settles:
  "\<exists>z. createEmployeeZip stringify generateAsync sl employeeData vcard headshotFile mediaFiles =
        Some (generateAsync z)"
proof -
  obtain z where "createEmployeeZip_generated stringify sl employeeData vcard headshotFile mediaFiles = [z]"
    using createEmployeeZip_generated_once [of stringify sl employeeData vcard headshotFile mediaFiles]
    by (auto simp: length_Suc_conv)
  then have "createEmployeeZip stringify generateAsync sl employeeData vcard headshotFile mediaFiles =
        Some (generateAsync z)"
    by (simp add: createEmployeeZip_def)
  then show ?thesis ..
qed

text \<open>
  C5.  For every slug, record (its headshot name of the form \<open>headshot\<close> plus
  extension), contact-card text, headshot file and list of media items whose file
  names are pairwise distinct and differ from \<open>data.json\<close>, \<open>contact.vcf\<close> and the
  headshot name: \<open>generateAsync\<close> is called once, on an archive that has exactly one
  folder, named by the slug, holding exactly the serialized record as \<open>data.json\<close>,
  the contact card as \<open>contact.vcf\<close>, the headshot file under the record's headshot
  name and each media file under its given name, in this order, and nothing else; the
  promise settles as that call does.
\<close>

theorem createEmployeeZip_layout:
  assumes "distinct (map filename mediaFiles)"
    and "\<forall>m \<in> set mediaFiles. filename m \<notin> {''data.json'', ''contact.vcf'', headshot employeeData}"
    and "headshot employeeData = ''headshot'' @ ext"
  shows "createEmployeeZip_generated stringify sl employeeData vcard headshotFile mediaFiles =
           [[(sl, [(''data.json'', TextEntry (stringify employeeData)),
                   (''contact.vcf'', TextEntry vcard),
                   (headshot employeeData, FileEntry headshotFile)] @
                  map (\<lambda>m. (filename m, FileEntry (media_file m))) mediaFiles)]]
       \<and> createEmployeeZip stringify generateAsync sl employeeData vcard headshotFile mediaFiles =
           Some (generateAsync
             [(sl, [(''data.json'', TextEntry (stringify employeeData)),
                   (''contact.vcf'', TextEntry vcard),
                   (headshot employeeData, FileEntry headshotFile)] @
                  map (\<lambda>m. (filename m, FileEntry (media_file m))) mediaFiles)])"
  unfolding createEmployeeZip_def createEmployeeZip_generated_layout [OF assms]
  by simp

theorem createEmployeeZip_layout_witness:
  "createEmployeeZip_generated (\<lambda>e. ''{}'') ''john-doe'' john_doe ''BEGIN:VCARD'' portrait
     [hiking_gif, lab_setup_jpg] =
     [[(''john-doe'',
        [(''data.json'', TextEntry ''{}''),
         (''contact.vcf'', TextEntry ''BEGIN:VCARD''),
         (''headshot.jpg'', FileEntry portrait),
         (''hiking.gif'', FileEntry (media_file hiking_gif)),
         (''lab-setup.jpg'', FileEntry (media_file lab_setup_jpg))])]]"
proof -
  have h1: "distinct (map filename [hiking_gif, lab_setup_jpg])"
    by (simp add: hiking_gif_def lab_setup_jpg_def)
  have h2: "\<forall>m \<in> set [hiking_gif, lab_setup_jpg].
              filename m \<notin> {''data.json'', ''contact.vcf'', headshot john_doe}"
    by (simp add: hiking_gif_def lab_setup_jpg_def john_doe_def)
  have h3: "headshot john_doe = ''headshot'' @ ''.jpg''"
    by (simp add: john_doe_def)
  have n: "headshot john_doe = ''headshot.jpg''" "filename hiking_gif = ''hiking.gif''"
    "filename lab_setup_jpg = ''lab-setup.jpg''"
    by (simp_all add: hiking_gif_def lab_setup_jpg_def john_doe_def)
  from createEmployeeZip_layout [OF h1 h2 h3, of "\<lambda>e. ''{}''" "''john-doe''" "''BEGIN:VCARD''" portrait]
  show ?thesis
    by (simp add: n)
qed

section \<open>Image references of the bio on the profile page\<close>

text \<open>
  C6 fails on the code.  The bio of the record refers to two files of its folder,
  \<open>hiking.gif\<close> and \<open>http-diagram.png\<close>.  The first reference is rewritten to
  \<open>/employee-cards/john-doe/hiking.gif\<close>; the second begins with the letters
  \<open>http\<close>, so the guard of the loop skips it and it stays \<open>http-diagram.png\<close>,
  where C6 asks for \<open>/employee-cards/john-doe/http-diagram.png\<close>.  The media
  gallery of the same function gives both files of the same record the address in the
  record's folder.
\<close>

theorem renderProfile_bio_http_filename_kept:
  "renderProfile_bio http_diagram_parse http_diagram =
     [Some ''/employee-cards/john-doe/hiking.gif'', Some ''http-diagram.png'']
   \<and> renderProfile_media http_diagram =
     [''/employee-cards/john-doe/hiking.gif'', ''/employee-cards/john-doe/http-diagram.png'']"
  by code_simp

section \<open>Images embedded in the bio of the form\<close>

text \<open>
  C2 fails on the code for an image whose source is a data URL without a media-type
  parameter (a pasted image with a percent-encoded SVG payload): \<open>dataUrlToFile\<close>
  indexes the \<open>null\<close> of the failed match, the TypeError leaves
  \<open>handleFormSubmit\<close>, and no record, media list or archive is produced, whatever
  the decoder, the serializer and the archive engine do.
\<close>

theorem handleFormSubmit_plain_data_url_throws:
  "handleFormSubmit atob svg_parse stringify generateAsync svg_form = Uncaught TypeError"
  by code_simp

text \<open>
  The case the specification singles out, on the images the editor inserts: a bio with
  two base64 images and an external one between them gives a record whose media are
  \<open>bio-image-1.png\<close> and \<open>bio-image-2.gif\<close> in document order, and whose markup
  refers to the two by these names and to the external image as before.
\<close>

lemma handleFormSubmit_two_inline_images:
  assumes "atob ''iVBORw0KGgo='' = Some png_bytes"
    and "atob ''R0lGODlhAQABAAAAACw='' = Some gif_bytes"
    and "\<And>z. generateAsync z = Inr packed"
  shows "\<exists>sub. handleFormSubmit atob two_image_parse stringify generateAsync two_image_form = ShowFormPreview sub
     \<and> map filename (sub_media sub) = [''bio-image-1.png'', ''bio-image-2.gif'']
     \<and> media (sub_employeeData sub) = [''bio-image-1.png'', ''bio-image-2.gif'']
     \<and> bioHtml (sub_employeeData sub) =
           ''<p>Hi</p><img src=\"bio-image-1.png\" title=\"lab.png\">'' @
           ''<img src=\"https://example.com/x.png\">'' @
           ''<img src=\"bio-image-2.gif\">''"
proof -
  define png_file where "png_file = \<lparr>file_name = ''lab.png'', file_type = ''image/png'', file_bytes = png_bytes\<rparr>"
  define gif_file where "gif_file = \<lparr>file_name = ''image.gif'', file_type = ''image/gif'', file_bytes = gif_bytes\<rparr>"
  have sp: "split_on CHR '','' png_url = [''data:image/png;base64'', ''iVBORw0KGgo='']"
    and sg: "split_on CHR '','' gif_url = [''data:image/gif;base64'', ''R0lGODlhAQABAAAAACw='']"
    and mp: "regex_mime ''data:image/png;base64'' = Some ''image/png''"
    and mg: "regex_mime ''data:image/gif;base64'' = Some ''image/gif''"
    and st: "startsWith png_url ''data:''" "startsWith gif_url ''data:''"
            "\<not> startsWith ''https://example.com/x.png'' ''data:''"
    by code_simp+
  have fp: "dataUrlToFile atob png_url ''lab.png'' = Inr png_file"
    and fg: "dataUrlToFile atob gif_url ''image.gif'' = Inr gif_file"
    unfolding dataUrlToFile_def sp sg list.case mp mg option.case
    by (simp_all add: assms png_file_def gif_file_def)
  have ex: "extractMediaFromBio atob two_image_parse markup =
      Inr [\<lparr>src = png_url, src_file = png_file\<rparr>, \<lparr>src = gif_url, src_file = gif_file\<rparr>]" for markup
    by (simp add: extractMediaFromBio_def two_image_parse_def st fp fg)
  have n1: "''bio-image-'' @ show_nat (0 + 1) @ getFileExtension ''lab.png'' = ''bio-image-1.png''"
    and n2: "''bio-image-'' @ show_nat (0 + 1 + 1) @ getFileExtension ''image.gif'' = ''bio-image-2.gif''"
    by code_simp+
  have r: "js_replace (js_replace (trim (in_bioHtml two_image_form)) png_url ''bio-image-1.png'')
             gif_url ''bio-image-2.gif'' =
           ''<p>Hi</p><img src=\"bio-image-1.png\" title=\"lab.png\">'' @
           ''<img src=\"https://example.com/x.png\">'' @
           ''<img src=\"bio-image-2.gif\">''"
    by code_simp
  have cv: "convert_loop [\<lparr>src = png_url, src_file = png_file\<rparr>, \<lparr>src = gif_url, src_file = gif_file\<rparr>] 0
              ([], trim (in_bioHtml two_image_form)) =
            ([\<lparr>filename = ''bio-image-1.png'', media_file = png_file\<rparr>,
              \<lparr>filename = ''bio-image-2.gif'', media_file = gif_file\<rparr>],
             ''<p>Hi</p><img src=\"bio-image-1.png\" title=\"lab.png\">'' @
             ''<img src=\"https://example.com/x.png\">'' @
             ''<img src=\"bio-image-2.gif\">'')"
    using n1 n2 r by (simp add: st Let_def png_file_def gif_file_def)
  have v: "trim (in_firstName two_image_form) \<noteq> [] \<and> trim (in_lastName two_image_form) \<noteq> [] \<and>
           trim (in_email two_image_form) \<noteq> [] \<and> trim (in_title two_image_form) \<noteq> [] \<and>
           trim (in_department two_image_form) \<noteq> [] \<and> trim (in_bioHtml two_image_form) \<noteq> []"
    and hf: "in_headshot_files two_image_form = [portrait]"
    by code_simp+
  have cz: "createEmployeeZip stringify generateAsync sl e vc hs ms = Some (Inr packed)" for sl e vc hs ms
    using createEmployeeZip_settles [of stringify generateAsync sl e vc hs ms] assms(3) by auto
  show ?thesis
    unfolding handleFormSubmit_def Let_def hf list.case ex sum.case cv prod.case cz
    by (simp add: v)
qed


text \<open>
  The record of every submission that reaches the preview: its slug is the
  specification's derivation from the two name fields as they were typed (the form
  trims them before \<open>generateSlug\<close> sees them), the required fields are not empty,
  an absent phone or LinkedIn address is \<open>null\<close> and never the empty string, the
  headshot is named \<open>headshot\<close> plus an extension, and the media list names the
  media files in order.
\<close>

lemma handleFormSubmit_record:
  assumes "handleFormSubmit atob parse stringify generateAsync inp = ShowFormPreview sub"
  shows "slug (sub_employeeData sub) = deriveSlug_spec (in_firstName inp) (in_lastName inp)
       \<and> firstName (sub_employeeData sub) = trim (in_firstName inp)
       \<and> firstName (sub_employeeData sub) \<noteq> []
       \<and> lastName (sub_employeeData sub) = trim (in_lastName inp)
       \<and> lastName (sub_employeeData sub) \<noteq> []
       \<and> title (sub_employeeData sub) \<noteq> []
       \<and> department (sub_employeeData sub) \<noteq> []
       \<and> email (sub_employeeData sub) \<noteq> []
       \<and> phone (sub_employeeData sub) \<noteq> Some []
       \<and> linkedin (sub_employeeData sub) \<noteq> Some []
       \<and> (\<exists>ext. headshot (sub_employeeData sub) = ''headshot'' @ ext)
       \<and> media (sub_employeeData sub) = map filename (sub_media sub)
       \<and> sub_vcard sub = buildVcard (sub_employeeData sub)
       \<and> sub_profileUrl sub = buildProfileUrl (slug (sub_employeeData sub))"
  using assms unfolding handleFormSubmit_def Let_def
  by (auto split: if_splits list.splits sum.splits prod.splits option.splits
           simp: generateSlug_of_trimmed)

text \<open>
  Whenever a submission reaches the preview, every inline image of the bio was
  extracted, in document order, and the media list of the record names them
  \<open>bio-image-1\<close>, \<open>bio-image-2\<close> and so on, each with the extension of the file
  made from the image (its title, or \<open>image.gif\<close> without one).
\<close>

lemma dataUrlToFile_name:
  "dataUrlToFile atob url fname = Inr f \<Longrightarrow> file_name f = fname"
  by (auto simp: dataUrlToFile_def split: list.splits option.splits)

lemma extract_loop_result:
  assumes "extract_loop atob imgs found = Inr res"
  shows "\<exists>new. res = found @ new
           \<and> map src new = filter (\<lambda>u. startsWith u ''data:'') (map img_src imgs)
           \<and> (\<forall>b \<in> set new. startsWith (src b) ''data:'' \<and> file_name (src_file b) \<noteq> [])"
  using assms
proof (induction imgs arbitrary: found)
  case Nil
  then show ?case by simp
next
  case (Cons i imgs)
  show ?case
  proof (cases "startsWith (img_src i) ''data:''")
    case False
    with Cons show ?thesis by simp
  next
    case True
    let ?fname = "if img_title i = [] then ''image.gif'' else img_title i"
    from Cons.prems True obtain f where
      f: "dataUrlToFile atob (img_src i) ?fname = Inr f"
      and rest: "extract_loop atob imgs (found @ [\<lparr>src = img_src i, src_file = f\<rparr>]) = Inr res"
      by (auto split: sum.splits)
    have name: "file_name f \<noteq> []"
      using dataUrlToFile_name [OF f] by auto
    from Cons.IH [OF rest] obtain new where
      new: "res = (found @ [\<lparr>src = img_src i, src_file = f\<rparr>]) @ new"
        "map src new = filter (\<lambda>u. startsWith u ''data:'') (map img_src imgs)"
        "\<forall>b \<in> set new. startsWith (src b) ''data:'' \<and> file_name (src_file b) \<noteq> []"
      by blast
    show ?thesis
      using new True name
      by (intro exI [of _ "\<lparr>src = img_src i, src_file = f\<rparr> # new"]) simp
  qed
qed

lemma convert_loop_names:
  assumes "\<forall>b \<in> set bs. startsWith (src b) ''data:'' \<and> file_name (src_file b) \<noteq> []"
  shows "map filename (fst (convert_loop bs index (acc, html))) =
           map filename acc @
           map (\<lambda>k. ''bio-image-'' @ show_nat (index + k + 1) @
                      getFileExtension (file_name (src_file (bs ! k))))
               [0..<length bs]"
  using assms
proof (induction bs arbitrary: index acc html)
  case Nil
  then show ?case by simp
next
  case (Cons b bs)
  have shift: "map (\<lambda>k. ''bio-image-'' @ show_nat (index + k + 1) @
                      getFileExtension (file_name (src_file ((b # bs) ! k))))
               [0..<length (b # bs)] =
        (''bio-image-'' @ show_nat (index + 1) @ getFileExtension (file_name (src_file b))) #
        map (\<lambda>k. ''bio-image-'' @ show_nat (index + 1 + k + 1) @
                      getFileExtension (file_name (src_file (bs ! k))))
               [0..<length bs]"
    unfolding length_Cons map_upt_Suc by simp
  from Cons.prems have b: "startsWith (src b) ''data:''" "file_name (src_file b) \<noteq> []"
    and bs: "\<forall>b \<in> set bs. startsWith (src b) ''data:'' \<and> file_name (src_file b) \<noteq> []"
    by simp_all
  show ?case
    unfolding shift using b by (simp add: Let_def Cons.IH [OF bs])
qed

lemma handleFormSubmit_media_names:
  assumes "handleFormSubmit atob parse stringify generateAsync inp = ShowFormPreview sub"
  shows "\<exists>bioImages.
           extractMediaFromBio atob parse (trim (in_bioHtml inp)) = Inr bioImages
         \<and> map src bioImages =
             filter (\<lambda>u. startsWith u ''data:'') (map img_src (parse (trim (in_bioHtml inp))))
         \<and> media (sub_employeeData sub) =
             map (\<lambda>k. ''bio-image-'' @ show_nat (k + 1) @
                        getFileExtension (file_name (src_file (bioImages ! k))))
                 [0..<length bioImages]"
proof -
  let ?bio = "trim (in_bioHtml inp)"
  from assms obtain bioImages where
    ex: "extractMediaFromBio atob parse ?bio = Inr bioImages"
    and md: "media (sub_employeeData sub) = map filename (fst (convert_loop bioImages 0 ([], ?bio)))"
    unfolding handleFormSubmit_def Let_def
    by (auto split: if_splits list.splits sum.splits prod.splits option.splits)
  from extract_loop_result [OF ex [unfolded extractMediaFromBio_def]]
  have srcs: "map src bioImages = filter (\<lambda>u. startsWith u ''data:'') (map img_src (parse ?bio))"
    and ok: "\<forall>b \<in> set bioImages. startsWith (src b) ''data:'' \<and> file_name (src_file b) \<noteq> []"
    by auto
  have "media (sub_employeeData sub) =
          map (\<lambda>k. ''bio-image-'' @ show_nat (k + 1) @
                     getFileExtension (file_name (src_file (bioImages ! k))))
              [0..<length bioImages]"
    unfolding md convert_loop_names [OF ok] by simp
  with ex srcs show ?thesis by blast
qed


end
